theory Spec2Isabelle
  imports Main
begin

section \<open>Data model of \<open>multi_server_client.py\<close>\<close>

subsection \<open>Exceptions\<close>

text \<open>
  Every exception the client raises itself, plus \<open>OtherError\<close> for whatever a provider,
  the transport or the configuration loader may raise (class name and message).
  \<open>McpError\<close> carries the code and the message of its \<open>ErrorData\<close>; \<open>ValidationError\<close> is
  pydantic's.
\<close>

datatype exn =
    ValueError string
  | KeyError string
  | FileNotFoundError string
  | McpError int string
  | ValidationError string
  | OtherError string string

subsection \<open>Python dictionaries\<close>

text \<open>
  A \<open>dict\<close> keeps insertion order, and the listing operations iterate over one, so a
  dictionary is an association list. \<open>d.get(k)\<close> is \<open>map_of d k\<close>; \<open>d[k] = v\<close> is
  \<open>setitem\<close>: an existing key keeps its position, a new key goes to the end; \<open>d[k]\<close> is
  \<open>getitem\<close>, which raises \<open>KeyError\<close> on a missing key.
\<close>

type_synonym ('k, 'v) dict = "('k \<times> 'v) list"

fun setitem :: "('k, 'v) dict \<Rightarrow> 'k \<Rightarrow> 'v \<Rightarrow> ('k, 'v) dict" where
  "setitem [] k v = [(k, v)]"
| "setitem ((k', v') # d) k v =
     (if k' = k then (k', v) # d else (k', v') # setitem d k v)"

definition getitem :: "(string, 'v) dict \<Rightarrow> string \<Rightarrow> exn + 'v" where
  "getitem d k = (case map_of d k of None \<Rightarrow> Inl (KeyError k) | Some v \<Rightarrow> Inr v)"

definition dict_keys :: "('k, 'v) dict \<Rightarrow> 'k set" where
  "dict_keys d = fst ` set d"

subsection \<open>Capability entries and results (the fields of \<open>mcp.types\<close> the client reads)\<close>

text \<open>
  \<open>meta\<close> is the optional \<open>Dict[str, Any]\<close> of an entry. The fields the client never
  reads (description, schemas, arguments, ...) travel in an opaque \<open>body\<close>.
\<close>

type_synonym meta = "(string, string) dict"

record tool =
  tool_name :: string
  tool_body :: string
  tool_meta :: "meta option"

record resource =
  resource_uri :: string
  resource_name :: string
  resource_body :: string
  resource_meta :: "meta option"

record resource_template =
  template_uriTemplate :: string
  template_name :: string
  template_body :: string
  template_meta :: "meta option"

record prompt =
  prompt_name :: string
  prompt_body :: string
  prompt_meta :: "meta option"

text \<open>
  \<open>ListToolsResult\<close>, \<open>ListResourcesResult\<close>, \<open>ListResourceTemplatesResult\<close> and
  \<open>ListPromptsResult\<close>: the list (\<open>tools\<close>, \<open>resources\<close>, \<open>resourceTemplates\<close>,
  \<open>prompts\<close>) is \<open>entries\<close>.
\<close>

record 'a list_result =
  entries :: "'a list"
  nextCursor :: "string option"

datatype content = TextContent string | OtherContent string

record call_tool_result =
  content :: "content list"
  isError :: bool

type_synonym read_resource_result = string
type_synonym get_prompt_result = string
type_synonym arguments = "(string, string) dict"
type_synonym timedelta = nat
type_synonym progress_fn = nat

text \<open>
  A value of pydantic's class \<open>AnyUrl\<close>: a URL object with its text. The class is not part
  of the repository, so its constructor is a parameter of \<open>read_resource\<close>: applied to a
  text it returns the URL object, whose text may be a normalised form of the argument, or
  raises (pydantic's \<open>ValidationError\<close>) when the text is not a URL.
\<close>

datatype any_url = Url string

type_synonym any_url_constructor = "string \<Rightarrow> exn + any_url"

subsection \<open>The connection handle\<close>

text \<open>
  A \<open>ClientSession\<close> is an external collaborator: each of its operations either
  returns a value or raises.
\<close>

record session =
  session_initialize :: "exn option"
  session_list_tools :: "exn + tool list_result"
  session_list_resources :: "exn + resource list_result"
  session_list_resource_templates :: "exn + resource_template list_result"
  session_list_prompts :: "exn + prompt list_result"
  session_call_tool ::
    "string \<Rightarrow> arguments \<Rightarrow> timedelta option \<Rightarrow> progress_fn option \<Rightarrow> exn + call_tool_result"
  session_read_resource :: "any_url \<Rightarrow> exn + read_resource_result"
  session_get_prompt :: "string \<Rightarrow> arguments \<Rightarrow> exn + get_prompt_result"

subsection \<open>Configuration\<close>

record server_config =
  command :: string
  args :: "string list"

text \<open>\<open>MCPServersConfig.mcpServers\<close>, a \<open>Dict[str, ServerConfig]\<close>.\<close>

type_synonym mcp_servers_config = "(string, server_config) dict"

text \<open>
  What \<open>load_config\<close> finds at \<open>config_path\<close>: no file, a file that \<open>json.load\<close> or
  \<open>model_validate\<close> rejects (with the exception raised), or a valid configuration.
\<close>

datatype config_file = Missing | Invalid exn | Valid mcp_servers_config

text \<open>
  Entering \<open>stdio_client(params)\<close> and \<open>ClientSession(read, write)\<close> on the exit stack
  for the provider configured under a name: the session, or the exception raised.
\<close>

type_synonym transport = "string \<Rightarrow> server_config \<Rightarrow> exn + session"

subsection \<open>\<open>ServerCapabilities\<close> and \<open>MultiServerClient\<close>\<close>

record server_capabilities =
  cap_name :: string
  tools :: "tool list_result option"
  resources :: "resource list_result option"
  resource_templates :: "resource_template list_result option"
  prompts :: "prompt list_result option"

text \<open>
  A record of the module logger: level, format string and arguments, as
  \<open>logger.info(fmt, *args)\<close> and \<open>logger.warning(fmt, *args)\<close> pass them.
\<close>

datatype level = INFO | WARNING

datatype log_arg = S string | N nat | E exn

type_synonym log_record = "level \<times> string \<times> log_arg list"

record client =
  config_path :: string
  sessions :: "(string, session) dict"
  capabilities :: "(string, server_capabilities) dict"
  tool_to_server :: "(string, string) dict"
  prompt_to_server :: "(string, string) dict"
  logged :: "log_record list"

text \<open>\<open>__init__\<close>; the log starts with whatever the module logger has emitted so far.\<close>

definition init :: "string \<Rightarrow> log_record list \<Rightarrow> client" where
  "init path lg =
     \<lparr>config_path = path, sessions = [], capabilities = [],
      tool_to_server = [], prompt_to_server = [], logged = lg\<rparr>"

definition info :: "string \<Rightarrow> log_arg list \<Rightarrow> client \<Rightarrow> client" where
  "info fmt as st = st\<lparr>logged := logged st @ [(INFO, fmt, as)]\<rparr>"

definition warning :: "string \<Rightarrow> log_arg list \<Rightarrow> client \<Rightarrow> client" where
  "warning fmt as st = st\<lparr>logged := logged st @ [(WARNING, fmt, as)]\<rparr>"

text \<open>The single-quote character, for messages that begin or end with one.\<close>

definition sq :: string where
  "sq = [CHR 0x27]"

section \<open>The connect sequence\<close>

definition load_config :: "client \<Rightarrow> config_file \<Rightarrow> exn + mcp_servers_config" where
  "load_config st file =
     (case file of
        Missing \<Rightarrow> Inl (FileNotFoundError (''Configuration file not found: '' @ config_path st))
      | Invalid e \<Rightarrow> Inl e
      | Valid config \<Rightarrow> Inr config)"

text \<open>The loop \<open>for tool in tools_result.tools\<close> of \<open>_connect_server\<close>.\<close>

fun map_tools :: "string \<Rightarrow> tool list \<Rightarrow> client \<Rightarrow> client" where
  "map_tools server_name [] st = st"
| "map_tools server_name (t # ts) st =
     (let st1 =
        (case map_of (tool_to_server st) (tool_name t) of
           None \<Rightarrow> st
         | Some existing_server \<Rightarrow>
             warning (''Tool '%s' collision detected! Already provided by '%s', now overridden by '%s'' @ sq)
               [S (tool_name t), S existing_server, S server_name] st)
      in map_tools server_name ts
           (st1\<lparr>tool_to_server := setitem (tool_to_server st1) (tool_name t) server_name\<rparr>))"

text \<open>The loop \<open>for prompt in prompts_result.prompts\<close> of \<open>_connect_server\<close>.\<close>

fun map_prompts :: "string \<Rightarrow> prompt list \<Rightarrow> client \<Rightarrow> client" where
  "map_prompts server_name [] st = st"
| "map_prompts server_name (p # ps) st =
     (let st1 =
        (case map_of (prompt_to_server st) (prompt_name p) of
           None \<Rightarrow> st
         | Some existing_server \<Rightarrow>
             warning (''Prompt '%s' collision detected! Already provided by '%s', now overridden by '%s'' @ sq)
               [S (prompt_name p), S existing_server, S server_name] st)
      in map_prompts server_name ps
           (st1\<lparr>prompt_to_server := setitem (prompt_to_server st1) (prompt_name p) server_name\<rparr>))"

text \<open>
  The four \<open>try\<close> blocks of \<open>_connect_server\<close>. Each takes the client and the local
  \<open>capabilities\<close> object and returns both; \<open>except Exception\<close> catches the failure of
  the query, logs a warning and leaves the field \<open>None\<close>.
\<close>

definition get_tools ::
  "session \<Rightarrow> string \<Rightarrow> client \<times> server_capabilities \<Rightarrow> client \<times> server_capabilities" where
  "get_tools session server_name sc =
     (case sc of (st, caps) \<Rightarrow>
        (case session_list_tools session of
           Inr tools_result \<Rightarrow>
             (map_tools server_name (entries tools_result)
                (info ''[%s] Found %d tool(s)'' [S server_name, N (length (entries tools_result))] st),
              caps\<lparr>tools := Some tools_result\<rparr>)
         | Inl e \<Rightarrow> (warning ''[%s] No tools available: %s'' [S server_name, E e] st, caps)))"

definition get_resources ::
  "session \<Rightarrow> string \<Rightarrow> client \<times> server_capabilities \<Rightarrow> client \<times> server_capabilities" where
  "get_resources session server_name sc =
     (case sc of (st, caps) \<Rightarrow>
        (case session_list_resources session of
           Inr resources_result \<Rightarrow>
             (info ''[%s] Found %d resource(s)''
                [S server_name, N (length (entries resources_result))] st,
              caps\<lparr>resources := Some resources_result\<rparr>)
         | Inl e \<Rightarrow> (warning ''[%s] No resources available: %s'' [S server_name, E e] st, caps)))"

definition get_resource_templates ::
  "session \<Rightarrow> string \<Rightarrow> client \<times> server_capabilities \<Rightarrow> client \<times> server_capabilities" where
  "get_resource_templates session server_name sc =
     (case sc of (st, caps) \<Rightarrow>
        (case session_list_resource_templates session of
           Inr templates_result \<Rightarrow>
             (info ''[%s] Found %d resource template(s)''
                [S server_name, N (length (entries templates_result))] st,
              caps\<lparr>resource_templates := Some templates_result\<rparr>)
         | Inl e \<Rightarrow>
             (warning ''[%s] No resource templates available: %s'' [S server_name, E e] st, caps)))"

definition get_prompts ::
  "session \<Rightarrow> string \<Rightarrow> client \<times> server_capabilities \<Rightarrow> client \<times> server_capabilities" where
  "get_prompts session server_name sc =
     (case sc of (st, caps) \<Rightarrow>
        (case session_list_prompts session of
           Inr prompts_result \<Rightarrow>
             (map_prompts server_name (entries prompts_result)
                (info ''[%s] Found %d prompt(s)''
                   [S server_name, N (length (entries prompts_result))] st),
              caps\<lparr>prompts := Some prompts_result\<rparr>)
         | Inl e \<Rightarrow> (warning ''[%s] No prompts available: %s'' [S server_name, E e] st, caps)))"

text \<open>
  \<open>_connect_server\<close>: the client afterwards, and the exception that escapes, if any.
  Nothing is registered before \<open>session.initialize()\<close> has returned.
\<close>

definition connect_server ::
  "transport \<Rightarrow> string \<Rightarrow> server_config \<Rightarrow> client \<Rightarrow> client \<times> exn option" where
  "connect_server stack server_name server_config st0 =
     (let st = info ''[%s] Connecting...'' [S server_name] st0 in
      case stack server_name server_config of
        Inl e \<Rightarrow> (st, Some e)
      | Inr session \<Rightarrow>
          (case session_initialize session of
             Some e \<Rightarrow> (st, Some e)
           | None \<Rightarrow>
               (case get_prompts session server_name
                       (get_resource_templates session server_name
                          (get_resources session server_name
                             (get_tools session server_name
                                (st\<lparr>sessions := setitem (sessions st) server_name session\<rparr>,
                                 \<lparr>cap_name = server_name, tools = None, resources = None,
                                  resource_templates = None, prompts = None\<rparr>)))) of
                  (st', caps) \<Rightarrow>
                    (st'\<lparr>capabilities := setitem (capabilities st') server_name caps\<rparr>, None))))"

text \<open>The loop of \<open>connect_all\<close>, with its \<open>except Exception ... continue\<close>.\<close>

fun connect_loop :: "transport \<Rightarrow> mcp_servers_config \<Rightarrow> client \<Rightarrow> client" where
  "connect_loop stack [] st = st"
| "connect_loop stack ((server_name, server_config) # rest) st =
     (case connect_server stack server_name server_config st of
        (st', None) \<Rightarrow> connect_loop stack rest st'
      | (st', Some e) \<Rightarrow>
          connect_loop stack rest (warning ''Failed to connect to %s: %s'' [S server_name, E e] st'))"

definition connect_all :: "config_file \<Rightarrow> transport \<Rightarrow> client \<Rightarrow> exn + client" where
  "connect_all file stack st =
     (case load_config st file of
        Inl e \<Rightarrow> Inl e
      | Inr config \<Rightarrow>
          (let st1 = connect_loop stack config
                       (info ''Connecting to %d MCP servers...'' [N (length config)] st)
           in Inr (info ''Successfully connected to %d server(s)'' [N (length (sessions st1))] st1)))"

section \<open>Listing operations\<close>

text \<open>\<open>{**(entry.meta or {}), "serverName": server_name}\<close>\<close>

definition with_server_name :: "meta option \<Rightarrow> string \<Rightarrow> meta" where
  "with_server_name m server_name =
     setitem (case m of None \<Rightarrow> [] | Some existing_meta \<Rightarrow> existing_meta)
       ''serverName'' server_name"

text \<open>
  In each listing the outer loop runs over \<open>self.capabilities.items()\<close> and the inner one
  over the snapshot's list, appending to the accumulator. A result object is always true
  in \<open>if capabilities.tools:\<close>, so the test is \<open>is not None\<close>.
\<close>

definition list_tools :: "client \<Rightarrow> string option \<Rightarrow> exn + tool list_result" where
  "list_tools st cursor =
     (case cursor of
        Some c \<Rightarrow> Inl (ValueError ''Pagination not supported for multi-server aggregation'')
      | None \<Rightarrow>
          Inr \<lparr>entries =
                 foldl (\<lambda>all_tools (server_name, caps).
                          case tools caps of
                            None \<Rightarrow> all_tools
                          | Some r \<Rightarrow>
                              foldl (\<lambda>all_tools tool.
                                       all_tools @
                                       [tool\<lparr>tool_meta :=
                                               Some (with_server_name (tool_meta tool) server_name)\<rparr>])
                                all_tools (entries r))
                   [] (capabilities st),
               nextCursor = None\<rparr>)"

definition list_prompts :: "client \<Rightarrow> string option \<Rightarrow> exn + prompt list_result" where
  "list_prompts st cursor =
     (case cursor of
        Some c \<Rightarrow> Inl (ValueError ''Pagination not supported for multi-server aggregation'')
      | None \<Rightarrow>
          Inr \<lparr>entries =
                 foldl (\<lambda>all_prompts (server_name, caps).
                          case prompts caps of
                            None \<Rightarrow> all_prompts
                          | Some r \<Rightarrow>
                              foldl (\<lambda>all_prompts prompt.
                                       all_prompts @
                                       [prompt\<lparr>prompt_meta :=
                                                 Some (with_server_name (prompt_meta prompt) server_name)\<rparr>])
                                all_prompts (entries r))
                   [] (capabilities st),
               nextCursor = None\<rparr>)"

definition list_resources ::
  "client \<Rightarrow> string option \<Rightarrow> bool \<Rightarrow> exn + resource list_result" where
  "list_resources st cursor use_namespace =
     (case cursor of
        Some c \<Rightarrow> Inl (ValueError ''Pagination not supported for multi-server aggregation'')
      | None \<Rightarrow>
          Inr \<lparr>entries =
                 foldl (\<lambda>all_resources (server_name, caps).
                          case resources caps of
                            None \<Rightarrow> all_resources
                          | Some r \<Rightarrow>
                              foldl (\<lambda>all_resources resource.
                                       all_resources @
                                       [resource
                                          \<lparr>resource_uri :=
                                             (if use_namespace
                                              then server_name @ '':'' @ resource_uri resource
                                              else resource_uri resource),
                                           resource_meta :=
                                             Some (with_server_name (resource_meta resource) server_name)\<rparr>])
                                all_resources (entries r))
                   [] (capabilities st),
               nextCursor = None\<rparr>)"

definition list_resource_templates ::
  "client \<Rightarrow> string option \<Rightarrow> bool \<Rightarrow> exn + resource_template list_result" where
  "list_resource_templates st cursor use_namespace =
     (case cursor of
        Some c \<Rightarrow> Inl (ValueError ''Pagination not supported for multi-server aggregation'')
      | None \<Rightarrow>
          Inr \<lparr>entries =
                 foldl (\<lambda>all_templates (server_name, caps).
                          case resource_templates caps of
                            None \<Rightarrow> all_templates
                          | Some r \<Rightarrow>
                              foldl (\<lambda>all_templates template.
                                       all_templates @
                                       [template
                                          \<lparr>template_uriTemplate :=
                                             (if use_namespace
                                              then server_name @ '':'' @ template_uriTemplate template
                                              else template_uriTemplate template),
                                           template_meta :=
                                             Some (with_server_name (template_meta template) server_name)\<rparr>])
                                all_templates (entries r))
                   [] (capabilities st),
               nextCursor = None\<rparr>)"

section \<open>Call routing\<close>

definition create_error_result :: "string \<Rightarrow> call_tool_result" where
  "create_error_result error_message =
     \<lparr>content = [TextContent error_message], isError = True\<rparr>"

text \<open>
  \<open>call_tool\<close>. \<open>if not server_name\<close> after \<open>tool_to_server.get(name)\<close> is true for a
  missing name and for the empty string. \<open>self.capabilities[server_name]\<close> and
  \<open>self.sessions[server_name]\<close> are plain subscripts (\<open>getitem\<close>).
\<close>

definition call_tool ::
  "client \<Rightarrow> string \<Rightarrow> arguments \<Rightarrow> timedelta option \<Rightarrow> progress_fn option \<Rightarrow>
   string option \<Rightarrow> exn + call_tool_result" where
  "call_tool st name arguments read_timeout_seconds progress_callback server_name =
     (let forward = (\<lambda>server_name.
            case getitem (sessions st) server_name of
              Inl e \<Rightarrow> Inl e
            | Inr session \<Rightarrow>
                session_call_tool session name arguments read_timeout_seconds progress_callback)
      in case server_name of
           None \<Rightarrow>
             (case map_of (tool_to_server st) name of
                None \<Rightarrow> Inr (create_error_result (''Unknown tool: '' @ name))
              | Some server_name \<Rightarrow>
                  if server_name = [] then Inr (create_error_result (''Unknown tool: '' @ name))
                  else forward server_name)
         | Some server_name \<Rightarrow>
             (case map_of (sessions st) server_name of
                None \<Rightarrow> Inr (create_error_result (''Unknown server: '' @ server_name))
              | Some _ \<Rightarrow>
                  (case getitem (capabilities st) server_name of
                     Inl e \<Rightarrow> Inl e
                   | Inr server_capabilities \<Rightarrow>
                       (case tools server_capabilities of
                          None \<Rightarrow>
                            Inr (create_error_result
                                   (''Server '' @ sq @ server_name @ sq @ '' has no tools''))
                        | Some r \<Rightarrow>
                            if name \<notin> tool_name ` set (entries r)
                            then Inr (create_error_result
                                        (''Tool '' @ sq @ name @ sq @ '' not found in server '' @
                                         sq @ server_name @ sq))
                            else forward server_name))))"

text \<open>\<open>uri_str.split(":", 1)\<close> for a string that contains a colon.\<close>

definition split_colon :: "string \<Rightarrow> string \<times> string" where
  "split_colon uri_str =
     (takeWhile (\<lambda>c. c \<noteq> CHR '':'') uri_str, tl (dropWhile (\<lambda>c. c \<noteq> CHR '':'') uri_str))"

text \<open>
  \<open>read_resource\<close>; \<open>uri\<close> is \<open>str(uri)\<close>. A session object is always true, so
  \<open>if not session\<close> after \<open>sessions.get(server_name)\<close> is the test for a missing key.
  \<open>AnyUrl(actual_uri)\<close> is evaluated after that test and before the session is called.
\<close>

definition read_resource ::
  "any_url_constructor \<Rightarrow> client \<Rightarrow> string \<Rightarrow> string option \<Rightarrow>
   exn + read_resource_result" where
  "read_resource AnyUrl st uri server_name =
     (let uri_str = uri;
          forward = (\<lambda>server_name actual_uri.
            case map_of (sessions st) server_name of
              None \<Rightarrow> Inl (McpError (- 32601) (''Unknown server: '' @ server_name))
            | Some session \<Rightarrow>
                (case AnyUrl actual_uri of
                   Inl e \<Rightarrow> Inl e
                 | Inr url \<Rightarrow> session_read_resource session url))
      in case server_name of
           None \<Rightarrow>
             (case (if CHR '':'' \<in> set uri_str
                    then (case split_colon uri_str of
                            (potential_server, potential_uri) \<Rightarrow>
                              (case map_of (sessions st) potential_server of
                                 None \<Rightarrow> (None, uri_str)
                               | Some _ \<Rightarrow> (Some potential_server, potential_uri)))
                    else (None, uri_str)) of
                (None, actual_uri) \<Rightarrow>
                  Inl (McpError (- 32601)
                         ''Must specify server_name or use namespaced URI format (server:uri)'')
              | (Some server_name, actual_uri) \<Rightarrow> forward server_name actual_uri)
         | Some server_name \<Rightarrow> forward server_name uri_str)"

text \<open>\<open>get_prompt\<close>; \<open>arguments or {}\<close> turns \<open>None\<close> into the empty dictionary.\<close>

definition get_prompt ::
  "client \<Rightarrow> string \<Rightarrow> arguments option \<Rightarrow> string option \<Rightarrow> exn + get_prompt_result" where
  "get_prompt st name arguments server_name =
     (let forward = (\<lambda>server_name.
            case getitem (sessions st) server_name of
              Inl e \<Rightarrow> Inl e
            | Inr session \<Rightarrow>
                session_get_prompt session name (case arguments of None \<Rightarrow> [] | Some a \<Rightarrow> a))
      in case server_name of
           None \<Rightarrow>
             (case map_of (prompt_to_server st) name of
                None \<Rightarrow> Inl (McpError (- 32601) (''Unknown prompt: '' @ name))
              | Some server_name \<Rightarrow>
                  if server_name = [] then Inl (McpError (- 32601) (''Unknown prompt: '' @ name))
                  else forward server_name)
         | Some server_name \<Rightarrow>
             (case map_of (sessions st) server_name of
                None \<Rightarrow> Inl (McpError (- 32601) (''Unknown server: '' @ server_name))
              | Some _ \<Rightarrow>
                  (case getitem (capabilities st) server_name of
                     Inl e \<Rightarrow> Inl e
                   | Inr server_capabilities \<Rightarrow>
                       (case prompts server_capabilities of
                          None \<Rightarrow>
                            Inl (McpError (- 32601)
                                   (''Server '' @ sq @ server_name @ sq @ '' has no prompts''))
                        | Some r \<Rightarrow>
                            if name \<notin> prompt_name ` set (entries r)
                            then Inl (McpError (- 32601)
                                        (''Prompt '' @ sq @ name @ sq @ '' not found in server '' @
                                         sq @ server_name @ sq))
                            else forward server_name))))"

section \<open>Notions used in the statements\<close>

text \<open>
  What a \<open>try\<close> block of \<open>_connect_server\<close> leaves in the snapshot for the outcome
  of its query, and the snapshot that the four queries of a session determine.
\<close>

definition recorded :: "exn + 'a \<Rightarrow> 'a option" where
  "recorded q = (case q of Inl e \<Rightarrow> None | Inr r \<Rightarrow> Some r)"

definition snapshot :: "string \<Rightarrow> session \<Rightarrow> server_capabilities" where
  "snapshot server_name s =
     \<lparr>cap_name = server_name,
      tools = recorded (session_list_tools s),
      resources = recorded (session_list_resources s),
      resource_templates = recorded (session_list_resource_templates s),
      prompts = recorded (session_list_prompts s)\<rparr>"

text \<open>
  The session that \<open>_connect_server\<close> registers for a provider: the connection must open
  and \<open>initialize\<close> must return. \<open>connected\<close> is the set of configured names for which it
  does.
\<close>

definition opened :: "transport \<Rightarrow> string \<Rightarrow> server_config \<Rightarrow> session option" where
  "opened stack server_name server_config =
     (case stack server_name server_config of
        Inl e \<Rightarrow> None
      | Inr s \<Rightarrow> (case session_initialize s of Some e \<Rightarrow> None | None \<Rightarrow> Some s))"

definition connected :: "transport \<Rightarrow> mcp_servers_config \<Rightarrow> string set" where
  "connected stack cfg = {n. \<exists>c. (n, c) \<in> set cfg \<and> opened stack n c \<noteq> None}"

text \<open>
  The tool and prompt names a session advertises (none when the query fails), and
  configurations in which no provider that connects advertises a given name.
\<close>

definition tool_names :: "session \<Rightarrow> string set" where
  "tool_names s =
     (case session_list_tools s of Inl e \<Rightarrow> {} | Inr r \<Rightarrow> tool_name ` set (entries r))"

definition prompt_names :: "session \<Rightarrow> string set" where
  "prompt_names s =
     (case session_list_prompts s of Inl e \<Rightarrow> {} | Inr r \<Rightarrow> prompt_name ` set (entries r))"

definition silent_on_tool :: "transport \<Rightarrow> string \<Rightarrow> mcp_servers_config \<Rightarrow> bool" where
  "silent_on_tool stack x cfg =
     (\<forall>(n, c) \<in> set cfg. case opened stack n c of None \<Rightarrow> True | Some s \<Rightarrow> x \<notin> tool_names s)"

definition silent_on_prompt :: "transport \<Rightarrow> string \<Rightarrow> mcp_servers_config \<Rightarrow> bool" where
  "silent_on_prompt stack x cfg =
     (\<forall>(n, c) \<in> set cfg. case opened stack n c of None \<Rightarrow> True | Some s \<Rightarrow> x \<notin> prompt_names s)"

text \<open>
  The discovery part of \<open>_connect_server\<close>, after the session is registered; one iteration
  of the loop of \<open>connect_all\<close>; the client at the start of that loop.
\<close>

definition discovered :: "session \<Rightarrow> string \<Rightarrow> client \<Rightarrow> client \<times> server_capabilities" where
  "discovered s n st =
     get_prompts s n (get_resource_templates s n (get_resources s n (get_tools s n
        (st, \<lparr>cap_name = n, tools = None, resources = None,
              resource_templates = None, prompts = None\<rparr>))))"

definition connect_step :: "transport \<Rightarrow> string \<Rightarrow> server_config \<Rightarrow> client \<Rightarrow> client" where
  "connect_step stack n c st =
     (case connect_server stack n c st of
        (st', None) \<Rightarrow> st'
      | (st', Some e) \<Rightarrow> warning ''Failed to connect to %s: %s'' [S n, E e] st')"

definition begun :: "mcp_servers_config \<Rightarrow> client \<Rightarrow> client" where
  "begun cfg st = info ''Connecting to %d MCP servers...'' [N (length cfg)] st"

text \<open>
  The listing the specification describes: the concatenation, in the order of the
  \<open>capabilities\<close> dictionary and then of each snapshot, of the entries of one kind, each
  transformed by \<open>f\<close> applied to the owning server's name.
\<close>

definition aggregate ::
  "(string \<Rightarrow> 'a \<Rightarrow> 'b) \<Rightarrow> (server_capabilities \<Rightarrow> 'a list_result option) \<Rightarrow>
   (string, server_capabilities) dict \<Rightarrow> 'b list" where
  "aggregate f kind caps =
     concat (map (\<lambda>(server_name, c).
                    case kind c of None \<Rightarrow> [] | Some r \<Rightarrow> map (f server_name) (entries r)) caps)"

text \<open>
  The clients the public interface can produce: a freshly constructed one, and the result
  of any \<open>connect_all\<close> that returns. \<open>consistent\<close> is what the subscripts of \<open>call_tool\<close> and
  \<open>get_prompt\<close> rely on.
\<close>

inductive reachable :: "client \<Rightarrow> bool" where
  fresh: "reachable (init path lg)"
| rerun: "reachable st \<Longrightarrow> connect_all file stack st = Inr st' \<Longrightarrow> reachable st'"

definition consistent :: "client \<Rightarrow> bool" where
  "consistent st \<longleftrightarrow>
     dict_keys (sessions st) = dict_keys (capabilities st) \<and>
     (\<forall>x n. map_of (tool_to_server st) x = Some n \<longrightarrow> n \<in> dict_keys (sessions st)) \<and>
     (\<forall>x n. map_of (prompt_to_server st) x = Some n \<longrightarrow> n \<in> dict_keys (sessions st))"

text \<open>
  The warning logged when a tool or prompt name is already bound.
\<close>

definition tool_collision :: "string \<Rightarrow> string \<Rightarrow> string \<Rightarrow> log_record" where
  "tool_collision x old new =
     (WARNING,
      ''Tool '%s' collision detected! Already provided by '%s', now overridden by '%s'' @ sq,
      [S x, S old, S new])"

definition prompt_collision :: "string \<Rightarrow> string \<Rightarrow> string \<Rightarrow> log_record" where
  "prompt_collision x old new =
     (WARNING,
      ''Prompt '%s' collision detected! Already provided by '%s', now overridden by '%s'' @ sq,
      [S x, S old, S new])"

section \<open>Example providers\<close>

text \<open>
  A session whose queries return the given results; its calls answer with the name asked
  for, and reject an empty argument dictionary.
\<close>

definition example_session ::
  "exn + tool list_result \<Rightarrow> exn + resource list_result \<Rightarrow>
   exn + resource_template list_result \<Rightarrow> exn + prompt list_result \<Rightarrow> session" where
  "example_session ts rs tps ps =
     \<lparr>session_initialize = None,
      session_list_tools = ts,
      session_list_resources = rs,
      session_list_resource_templates = tps,
      session_list_prompts = ps,
      session_call_tool =
        (\<lambda>name arguments t cb.
           if arguments = [] then Inl (McpError (- 32602) ''Invalid params'')
           else Inr \<lparr>content = [TextContent name], isError = False\<rparr>),
      session_read_resource = (\<lambda>u. case u of Url x \<Rightarrow> Inr x),
      session_get_prompt =
        (\<lambda>name arguments.
           if arguments = [] then Inl (McpError (- 32602) ''Invalid params'') else Inr name)\<rparr>"

text \<open>
  \<open>inv\<close> advertises every kind, and one of its tools already carries a \<open>serverName\<close> in its
  meta; \<open>notes\<close> supports resources only; \<open>shop\<close> advertises the tool \<open>search\<close> and the prompt
  \<open>report\<close>, as \<open>inv\<close> does.
\<close>

definition inv_session :: session where
  "inv_session =
     example_session
       (Inr \<lparr>entries =
               [\<lparr>tool_name = ''get_item'', tool_body = ''{}'', tool_meta = None\<rparr>,
                \<lparr>tool_name = ''search'', tool_body = ''{}'',
                 tool_meta = Some [(''serverName'', ''upstream''), (''origin'', ''cache'')]\<rparr>],
             nextCursor = None\<rparr>)
       (Inr \<lparr>entries =
               [\<lparr>resource_uri = ''inventory://overview'', resource_name = ''Inventory Overview'',
                 resource_body = '''', resource_meta = None\<rparr>],
             nextCursor = None\<rparr>)
       (Inr \<lparr>entries =
               [\<lparr>template_uriTemplate = ''inventory://item/{id}'', template_name = ''Item'',
                 template_body = '''', template_meta = None\<rparr>],
             nextCursor = None\<rparr>)
       (Inr \<lparr>entries = [\<lparr>prompt_name = ''report'', prompt_body = '''', prompt_meta = None\<rparr>],
             nextCursor = None\<rparr>)"

definition notes_session :: session where
  "notes_session =
     example_session
       (Inl (McpError (- 32601) ''Method not found''))
       (Inr \<lparr>entries = [], nextCursor = None\<rparr>)
       (Inl (McpError (- 32601) ''Method not found''))
       (Inl (McpError (- 32601) ''Method not found''))"

definition shop_session :: session where
  "shop_session =
     example_session
       (Inr \<lparr>entries = [\<lparr>tool_name = ''search'', tool_body = ''{}'', tool_meta = None\<rparr>],
             nextCursor = None\<rparr>)
       (Inr \<lparr>entries = [], nextCursor = None\<rparr>)
       (Inr \<lparr>entries = [], nextCursor = None\<rparr>)
       (Inr \<lparr>entries = [\<lparr>prompt_name = ''report'', prompt_body = '''', prompt_meta = None\<rparr>],
             nextCursor = None\<rparr>)"

text \<open>
  A URL constructor that rejects, as pydantic's does, a text without a scheme. The first
  run connects \<open>inv\<close>, \<open>notes\<close> and \<open>shop\<close>, and nothing else; in the second run only \<open>notes\<close>
  connects, and it now answers as \<open>shop\<close> did.
\<close>

definition example_AnyUrl :: any_url_constructor where
  "example_AnyUrl text =
     (if CHR '':'' \<in> set text then Inr (Url text)
      else Inl (ValidationError ''relative URL without a base''))"

definition example_stack :: transport where
  "example_stack server_name server_config =
     (if server_name = ''inv'' then Inr inv_session
      else if server_name = ''notes'' then Inr notes_session
      else if server_name = ''shop'' then Inr shop_session
      else Inl (OtherError ''FileNotFoundError'' (command server_config)))"

definition second_stack :: transport where
  "second_stack server_name server_config =
     (if server_name = ''notes'' then Inr shop_session
      else Inl (OtherError ''FileNotFoundError'' (command server_config)))"

definition python :: server_config where
  "python = \<lparr>command = ''python'', args = [''server.py'']\<rparr>"

definition example_config :: mcp_servers_config where
  "example_config = [(''inv'', python), (''notes'', python), (''down'', python)]"

text \<open>
  The client after \<open>connect_all\<close> on a fresh client, and after a second \<open>connect_all\<close>.
\<close>

definition example_client :: client where
  "example_client =
     info ''Successfully connected to %d server(s)'' [N 2]
       (connect_loop example_stack example_config
          (info ''Connecting to %d MCP servers...'' [N 3] (init ''mcp_servers.json'' [])))"

definition rerun_client :: client where
  "rerun_client =
     info ''Successfully connected to %d server(s)'' [N 2]
       (connect_loop second_stack example_config
          (info ''Connecting to %d MCP servers...'' [N 3] example_client))"

section \<open>Dictionaries and the log\<close>

lemma map_of_setitem: "map_of (setitem d k v) = (map_of d)(k \<mapsto> v)"
  by (induction d k v rule: setitem.induct) (auto simp: fun_eq_iff)

lemma dict_keys_setitem: "dict_keys (setitem d k v) = insert k (dict_keys d)"
  by (induction d k v rule: setitem.induct) (auto simp: dict_keys_def)

lemma dict_keys_map_of: "k \<in> dict_keys d \<longleftrightarrow> map_of d k \<noteq> None"
  by (simp add: dict_keys_def map_of_eq_None_iff)

lemma info_fields [simp]:
  "config_path (info f a st) = config_path st"
  "sessions (info f a st) = sessions st"
  "capabilities (info f a st) = capabilities st"
  "tool_to_server (info f a st) = tool_to_server st"
  "prompt_to_server (info f a st) = prompt_to_server st"
  "logged (info f a st) = logged st @ [(INFO, f, a)]"
  by (simp_all add: info_def)

lemma warning_fields [simp]:
  "config_path (warning f a st) = config_path st"
  "sessions (warning f a st) = sessions st"
  "capabilities (warning f a st) = capabilities st"
  "tool_to_server (warning f a st) = tool_to_server st"
  "prompt_to_server (warning f a st) = prompt_to_server st"
  "logged (warning f a st) = logged st @ [(WARNING, f, a)]"
  by (simp_all add: warning_def)

section \<open>The routing-table loops\<close>

lemma map_tools_fields [simp]:
  "config_path (map_tools n ts st) = config_path st"
  "sessions (map_tools n ts st) = sessions st"
  "capabilities (map_tools n ts st) = capabilities st"
  "prompt_to_server (map_tools n ts st) = prompt_to_server st"
  by (induction n ts st rule: map_tools.induct; simp add: Let_def split: option.split)+

lemma map_tools_lookup:
  "map_of (tool_to_server (map_tools n ts st)) x =
     (if x \<in> tool_name ` set ts then Some n else map_of (tool_to_server st) x)"
  by (induction n ts st rule: map_tools.induct)
     (auto simp: Let_def map_of_setitem split: option.split)

lemma map_tools_logged: "set (logged st) \<subseteq> set (logged (map_tools n ts st))"
  by (induction n ts st rule: map_tools.induct)
     (auto simp: Let_def split: option.split)

lemma map_prompts_fields [simp]:
  "config_path (map_prompts n ps st) = config_path st"
  "sessions (map_prompts n ps st) = sessions st"
  "capabilities (map_prompts n ps st) = capabilities st"
  "tool_to_server (map_prompts n ps st) = tool_to_server st"
  by (induction n ps st rule: map_prompts.induct; simp add: Let_def split: option.split)+

lemma map_prompts_lookup:
  "map_of (prompt_to_server (map_prompts n ps st)) x =
     (if x \<in> prompt_name ` set ps then Some n else map_of (prompt_to_server st) x)"
  by (induction n ps st rule: map_prompts.induct)
     (auto simp: Let_def map_of_setitem split: option.split)

lemma map_prompts_logged: "set (logged st) \<subseteq> set (logged (map_prompts n ps st))"
  by (induction n ps st rule: map_prompts.induct)
     (auto simp: Let_def split: option.split)

section \<open>The four discovery queries\<close>

lemma get_tools_fields [simp]:
  "config_path (fst (get_tools s n p)) = config_path (fst p)"
  "sessions (fst (get_tools s n p)) = sessions (fst p)"
  "capabilities (fst (get_tools s n p)) = capabilities (fst p)"
  "prompt_to_server (fst (get_tools s n p)) = prompt_to_server (fst p)"
  "snd (get_tools s n p) =
     (case session_list_tools s of Inl e \<Rightarrow> snd p | Inr r \<Rightarrow> (snd p)\<lparr>tools := Some r\<rparr>)"
  by (cases p; simp add: get_tools_def split: sum.split)+

lemma get_tools_lookup:
  "map_of (tool_to_server (fst (get_tools s n p))) x =
     (if x \<in> tool_names s then Some n else map_of (tool_to_server (fst p)) x)"
  by (cases p) (simp add: get_tools_def tool_names_def map_tools_lookup split: sum.split)

lemma get_tools_logged: "set (logged (fst p)) \<subseteq> set (logged (fst (get_tools s n p)))"
proof (cases p)
  case (Pair st caps)
  show ?thesis
  proof (cases "session_list_tools s")
    case (Inl e)
    then show ?thesis using Pair by (auto simp: get_tools_def)
next
  case (Inr r)
  have "set (logged st) \<subseteq> set (logged (info ''[%s] Found %d tool(s)'' [S n, N (length (entries r))] st))"
    by auto
  also have "\<dots> \<subseteq> set (logged (map_tools n (entries r)
                 (info ''[%s] Found %d tool(s)'' [S n, N (length (entries r))] st)))"
    by (rule map_tools_logged)
  finally show ?thesis using Inr Pair by (simp add: get_tools_def)
  qed
qed

lemma get_resources_fields [simp]:
  "config_path (fst (get_resources s n p)) = config_path (fst p)"
  "sessions (fst (get_resources s n p)) = sessions (fst p)"
  "capabilities (fst (get_resources s n p)) = capabilities (fst p)"
  "tool_to_server (fst (get_resources s n p)) = tool_to_server (fst p)"
  "prompt_to_server (fst (get_resources s n p)) = prompt_to_server (fst p)"
  "snd (get_resources s n p) =
     (case session_list_resources s of Inl e \<Rightarrow> snd p | Inr r \<Rightarrow> (snd p)\<lparr>resources := Some r\<rparr>)"
  by (cases p; simp add: get_resources_def split: sum.split)+

lemma get_resources_logged:
  "set (logged (fst p)) \<subseteq> set (logged (fst (get_resources s n p)))"
  by (cases p) (auto simp: get_resources_def split: sum.split)

lemma get_resource_templates_fields [simp]:
  "config_path (fst (get_resource_templates s n p)) = config_path (fst p)"
  "sessions (fst (get_resource_templates s n p)) = sessions (fst p)"
  "capabilities (fst (get_resource_templates s n p)) = capabilities (fst p)"
  "tool_to_server (fst (get_resource_templates s n p)) = tool_to_server (fst p)"
  "prompt_to_server (fst (get_resource_templates s n p)) = prompt_to_server (fst p)"
  "snd (get_resource_templates s n p) =
     (case session_list_resource_templates s of
        Inl e \<Rightarrow> snd p | Inr r \<Rightarrow> (snd p)\<lparr>resource_templates := Some r\<rparr>)"
  by (cases p; simp add: get_resource_templates_def split: sum.split)+

lemma get_resource_templates_logged:
  "set (logged (fst p)) \<subseteq> set (logged (fst (get_resource_templates s n p)))"
  by (cases p) (auto simp: get_resource_templates_def split: sum.split)

lemma get_prompts_fields [simp]:
  "config_path (fst (get_prompts s n p)) = config_path (fst p)"
  "sessions (fst (get_prompts s n p)) = sessions (fst p)"
  "capabilities (fst (get_prompts s n p)) = capabilities (fst p)"
  "tool_to_server (fst (get_prompts s n p)) = tool_to_server (fst p)"
  "snd (get_prompts s n p) =
     (case session_list_prompts s of Inl e \<Rightarrow> snd p | Inr r \<Rightarrow> (snd p)\<lparr>prompts := Some r\<rparr>)"
  by (cases p; simp add: get_prompts_def split: sum.split)+

lemma get_prompts_lookup:
  "map_of (prompt_to_server (fst (get_prompts s n p))) x =
     (if x \<in> prompt_names s then Some n else map_of (prompt_to_server (fst p)) x)"
  by (cases p) (simp add: get_prompts_def prompt_names_def map_prompts_lookup split: sum.split)

lemma get_prompts_logged: "set (logged (fst p)) \<subseteq> set (logged (fst (get_prompts s n p)))"
proof (cases p)
  case (Pair st caps)
  show ?thesis
  proof (cases "session_list_prompts s")
    case (Inl e)
    then show ?thesis using Pair by (auto simp: get_prompts_def)
next
  case (Inr r)
  have "set (logged st) \<subseteq> set (logged (info ''[%s] Found %d prompt(s)'' [S n, N (length (entries r))] st))"
    by auto
  also have "\<dots> \<subseteq> set (logged (map_prompts n (entries r)
                 (info ''[%s] Found %d prompt(s)'' [S n, N (length (entries r))] st)))"
    by (rule map_prompts_logged)
  finally show ?thesis using Inr Pair by (simp add: get_prompts_def)
  qed
qed

lemma discovered_snapshot: "snd (discovered s n st) = snapshot n s"
  by (simp add: discovered_def snapshot_def recorded_def split: sum.split)

lemma discovered_fields [simp]:
  "config_path (fst (discovered s n st)) = config_path st"
  "sessions (fst (discovered s n st)) = sessions st"
  "capabilities (fst (discovered s n st)) = capabilities st"
  by (simp_all add: discovered_def)

lemma discovered_tool_lookup:
  "map_of (tool_to_server (fst (discovered s n st))) x =
     (if x \<in> tool_names s then Some n else map_of (tool_to_server st) x)"
  by (simp add: discovered_def get_tools_lookup)

lemma discovered_prompt_lookup:
  "map_of (prompt_to_server (fst (discovered s n st))) x =
     (if x \<in> prompt_names s then Some n else map_of (prompt_to_server st) x)"
  by (simp add: discovered_def get_prompts_lookup)

section \<open>One provider, then the loop over the configuration\<close>

lemma connect_server_eq:
  "connect_server stack n c st =
     (case opened stack n c of
        None \<Rightarrow>
          (info ''[%s] Connecting...'' [S n] st,
           (case stack n c of Inl e \<Rightarrow> Some e | Inr s \<Rightarrow> session_initialize s))
      | Some s \<Rightarrow>
          (let st' = fst (discovered s n
                       ((info ''[%s] Connecting...'' [S n] st)
                          \<lparr>sessions := setitem (sessions st) n s\<rparr>))
           in (st'\<lparr>capabilities := setitem (capabilities st) n (snapshot n s)\<rparr>, None)))"
proof (cases "opened stack n c")
  case None
  then show ?thesis
    by (auto simp: connect_server_def opened_def Let_def split: sum.splits option.splits)
next
  case (Some s)
  then have o: "stack n c = Inr s" "session_initialize s = None"
    by (auto simp: opened_def split: sum.splits option.splits)
  let ?st = "(info ''[%s] Connecting...'' [S n] st)\<lparr>sessions := setitem (sessions st) n s\<rparr>"
  obtain st' caps where d: "discovered s n ?st = (st', caps)"
    by (cases "discovered s n ?st")
  have "caps = snapshot n s"
    using discovered_snapshot [of s n ?st] d by simp
  moreover have "capabilities st' = capabilities st"
    using discovered_fields(3) [of s n ?st] d by simp
  ultimately show ?thesis
    using Some o d by (simp add: connect_server_def discovered_def [symmetric] Let_def)
qed

lemma connect_loop_Cons: "connect_loop stack ((n, c) # rest) st = connect_loop stack rest (connect_step stack n c st)"
  by (simp add: connect_step_def split: prod.split option.split)

declare connect_loop.simps(2) [simp del]

lemma connect_loop_append:
  "connect_loop stack (xs @ ys) st = connect_loop stack ys (connect_loop stack xs st)"
  by (induction xs arbitrary: st) (auto simp: connect_loop_Cons)

lemma connect_step_sessions:
  "sessions (connect_step stack n c st) =
     (case opened stack n c of None \<Rightarrow> sessions st | Some s \<Rightarrow> setitem (sessions st) n s)"
  by (simp add: connect_step_def connect_server_eq Let_def split: option.split)

lemma connect_step_capabilities:
  "capabilities (connect_step stack n c st) =
     (case opened stack n c of
        None \<Rightarrow> capabilities st
      | Some s \<Rightarrow> setitem (capabilities st) n (snapshot n s))"
  by (simp add: connect_step_def connect_server_eq Let_def split: option.split)

lemma connect_step_config_path: "config_path (connect_step stack n c st) = config_path st"
  by (simp add: connect_step_def connect_server_eq Let_def split: option.split)

lemma connect_step_tool_lookup:
  "map_of (tool_to_server (connect_step stack n c st)) x =
     (case opened stack n c of
        None \<Rightarrow> map_of (tool_to_server st) x
      | Some s \<Rightarrow> if x \<in> tool_names s then Some n else map_of (tool_to_server st) x)"
  by (simp add: connect_step_def connect_server_eq Let_def discovered_tool_lookup
      split: option.split)

lemma connect_step_prompt_lookup:
  "map_of (prompt_to_server (connect_step stack n c st)) x =
     (case opened stack n c of
        None \<Rightarrow> map_of (prompt_to_server st) x
      | Some s \<Rightarrow> if x \<in> prompt_names s then Some n else map_of (prompt_to_server st) x)"
  by (simp add: connect_step_def connect_server_eq Let_def discovered_prompt_lookup
      split: option.split)

lemma connect_loop_config_path: "config_path (connect_loop stack cfg st) = config_path st"
  by (induction cfg arbitrary: st)
     (auto simp: connect_loop_Cons connect_step_config_path)

lemma connect_loop_session_keys:
  "dict_keys (sessions (connect_loop stack cfg st)) =
     dict_keys (sessions st) \<union> {n. \<exists>c. (n, c) \<in> set cfg \<and> opened stack n c \<noteq> None}"
proof (induction cfg arbitrary: st)
  case Nil
  show ?case by simp
next
  case (Cons a cfg)
  obtain n c where a: "a = (n, c)" by (cases a)
  show ?case
    unfolding a connect_loop_Cons Cons.IH
    by (cases "opened stack n c") (auto simp: connect_step_sessions dict_keys_setitem)
qed

lemma connect_loop_capability_keys:
  "dict_keys (capabilities (connect_loop stack cfg st)) =
     dict_keys (capabilities st) \<union> {n. \<exists>c. (n, c) \<in> set cfg \<and> opened stack n c \<noteq> None}"
proof (induction cfg arbitrary: st)
  case Nil
  show ?case by simp
next
  case (Cons a cfg)
  obtain n c where a: "a = (n, c)" by (cases a)
  show ?case
    unfolding a connect_loop_Cons Cons.IH
    by (cases "opened stack n c") (auto simp: connect_step_capabilities dict_keys_setitem)
qed

lemma connect_loop_session_lookup:
  "distinct (map fst cfg) \<Longrightarrow>
   map_of (sessions (connect_loop stack cfg st)) x =
     (case map_of cfg x of
        None \<Rightarrow> map_of (sessions st) x
      | Some c \<Rightarrow>
          (case opened stack x c of None \<Rightarrow> map_of (sessions st) x | Some s \<Rightarrow> Some s))"
proof (induction cfg arbitrary: st)
  case Nil
  show ?case by simp
next
  case (Cons a cfg)
  obtain n c where a: "a = (n, c)" by (cases a)
  from Cons.prems have d: "distinct (map fst cfg)" and n: "n \<notin> fst ` set cfg"
    by (auto simp: a)
  from n have m: "map_of cfg n = None"
    by (simp add: map_of_eq_None_iff)
  show ?case
    unfolding a connect_loop_Cons Cons.IH [OF d]
    using m
    by (cases "opened stack n c")
       (auto simp: connect_step_sessions map_of_setitem split: option.split)
qed

lemma connect_loop_capability_lookup:
  "distinct (map fst cfg) \<Longrightarrow>
   map_of (capabilities (connect_loop stack cfg st)) x =
     (case map_of cfg x of
        None \<Rightarrow> map_of (capabilities st) x
      | Some c \<Rightarrow>
          (case opened stack x c of
             None \<Rightarrow> map_of (capabilities st) x
           | Some s \<Rightarrow> Some (snapshot x s)))"
proof (induction cfg arbitrary: st)
  case Nil
  show ?case by simp
next
  case (Cons a cfg)
  obtain n c where a: "a = (n, c)" by (cases a)
  from Cons.prems have d: "distinct (map fst cfg)" and n: "n \<notin> fst ` set cfg"
    by (auto simp: a)
  from n have m: "map_of cfg n = None"
    by (simp add: map_of_eq_None_iff)
  show ?case
    unfolding a connect_loop_Cons Cons.IH [OF d]
    using m
    by (cases "opened stack n c")
       (auto simp: connect_step_capabilities map_of_setitem split: option.split)
qed

lemma connect_loop_tool_unchanged:
  "(\<And>n c s. (n, c) \<in> set cfg \<Longrightarrow> opened stack n c = Some s \<Longrightarrow> x \<notin> tool_names s) \<Longrightarrow>
   map_of (tool_to_server (connect_loop stack cfg st)) x = map_of (tool_to_server st) x"
proof (induction cfg arbitrary: st)
  case Nil
  show ?case by simp
next
  case (Cons a cfg)
  obtain n c where a: "a = (n, c)" by (cases a)
  have "map_of (tool_to_server (connect_loop stack cfg (connect_step stack n c st))) x =
        map_of (tool_to_server (connect_step stack n c st)) x"
    by (rule Cons.IH) (metis Cons.prems list.set_intros(2))
  also have "\<dots> = map_of (tool_to_server st) x"
    using Cons.prems [of n c] by (auto simp: a connect_step_tool_lookup split: option.split)
  finally show ?case by (simp add: a connect_loop_Cons)
qed

lemma connect_loop_tool_owner:
  "map_of (tool_to_server (connect_loop stack cfg st)) x = Some n \<Longrightarrow>
   map_of (tool_to_server st) x = Some n \<or>
   (\<exists>c s. (n, c) \<in> set cfg \<and> opened stack n c = Some s \<and> x \<in> tool_names s)"
proof (induction cfg arbitrary: st)
  case Nil
  then show ?case by simp
next
  case (Cons a cfg)
  obtain m c where a: "a = (m, c)" by (cases a)
  from Cons.prems have "map_of (tool_to_server (connect_loop stack cfg (connect_step stack m c st))) x = Some n"
    by (simp add: a connect_loop_Cons)
  from Cons.IH [OF this] show ?case
    by (auto simp: a connect_step_tool_lookup split: option.splits if_splits)
qed

lemma connect_loop_tool_last:
  assumes "opened stack b cb = Some sb" and "x \<in> tool_names sb"
    and "\<And>n c s. (n, c) \<in> set post \<Longrightarrow> opened stack n c = Some s \<Longrightarrow> x \<notin> tool_names s"
  shows "map_of (tool_to_server (connect_loop stack (pre @ (b, cb) # post) st)) x = Some b"
proof -
  have "map_of (tool_to_server (connect_loop stack (pre @ (b, cb) # post) st)) x =
        map_of (tool_to_server (connect_step stack b cb (connect_loop stack pre st))) x"
    unfolding connect_loop_append connect_loop_Cons
    by (rule connect_loop_tool_unchanged) (rule assms(3))
  also have "\<dots> = Some b"
    using assms(1,2) by (simp add: connect_step_tool_lookup)
  finally show ?thesis .
qed

lemma connect_loop_prompt_unchanged:
  "(\<And>n c s. (n, c) \<in> set cfg \<Longrightarrow> opened stack n c = Some s \<Longrightarrow> x \<notin> prompt_names s) \<Longrightarrow>
   map_of (prompt_to_server (connect_loop stack cfg st)) x = map_of (prompt_to_server st) x"
proof (induction cfg arbitrary: st)
  case Nil
  show ?case by simp
next
  case (Cons a cfg)
  obtain n c where a: "a = (n, c)" by (cases a)
  have "map_of (prompt_to_server (connect_loop stack cfg (connect_step stack n c st))) x =
        map_of (prompt_to_server (connect_step stack n c st)) x"
    by (rule Cons.IH) (metis Cons.prems list.set_intros(2))
  also have "\<dots> = map_of (prompt_to_server st) x"
    using Cons.prems [of n c] by (auto simp: a connect_step_prompt_lookup split: option.split)
  finally show ?case by (simp add: a connect_loop_Cons)
qed

lemma connect_loop_prompt_owner:
  "map_of (prompt_to_server (connect_loop stack cfg st)) x = Some n \<Longrightarrow>
   map_of (prompt_to_server st) x = Some n \<or>
   (\<exists>c s. (n, c) \<in> set cfg \<and> opened stack n c = Some s \<and> x \<in> prompt_names s)"
proof (induction cfg arbitrary: st)
  case Nil
  then show ?case by simp
next
  case (Cons a cfg)
  obtain m c where a: "a = (m, c)" by (cases a)
  from Cons.prems have "map_of (prompt_to_server (connect_loop stack cfg (connect_step stack m c st))) x = Some n"
    by (simp add: a connect_loop_Cons)
  from Cons.IH [OF this] show ?case
    by (auto simp: a connect_step_prompt_lookup split: option.splits if_splits)
qed

lemma connect_loop_prompt_last:
  assumes "opened stack b cb = Some sb" and "x \<in> prompt_names sb"
    and "\<And>n c s. (n, c) \<in> set post \<Longrightarrow> opened stack n c = Some s \<Longrightarrow> x \<notin> prompt_names s"
  shows "map_of (prompt_to_server (connect_loop stack (pre @ (b, cb) # post) st)) x = Some b"
proof -
  have "map_of (prompt_to_server (connect_loop stack (pre @ (b, cb) # post) st)) x =
        map_of (prompt_to_server (connect_step stack b cb (connect_loop stack pre st))) x"
    unfolding connect_loop_append connect_loop_Cons
    by (rule connect_loop_prompt_unchanged) (rule assms(3))
  also have "\<dots> = Some b"
    using assms(1,2) by (simp add: connect_step_prompt_lookup)
  finally show ?thesis .
qed

section \<open>Listings as concatenations\<close>

lemma foldl_snoc_map: "foldl (\<lambda>acc x. acc @ [f x]) acc xs = acc @ map f xs"
  by (induction xs arbitrary: acc) simp_all

lemma foldl_aggregate:
  "foldl (\<lambda>acc (server_name, c).
            case kind c of
              None \<Rightarrow> acc
            | Some r \<Rightarrow> foldl (\<lambda>acc x. acc @ [f server_name x]) acc (entries r)) acc caps =
   acc @ aggregate f kind caps"
proof (induction caps arbitrary: acc)
  case Nil
  show ?case by (simp add: aggregate_def)
next
  case (Cons a caps)
  obtain n c where a: "a = (n, c)" by (cases a)
  show ?case
    unfolding a foldl_Cons Cons.IH
    by (simp add: aggregate_def foldl_snoc_map split: option.split)
qed

lemma list_tools_eq:
  "list_tools st None =
     Inr \<lparr>entries = aggregate (\<lambda>n t. t\<lparr>tool_meta := Some (with_server_name (tool_meta t) n)\<rparr>)
                       tools (capabilities st),
          nextCursor = None\<rparr>"
  unfolding list_tools_def option.case
  by (simp add: foldl_aggregate [where acc = "[]", simplified])

lemma list_prompts_eq:
  "list_prompts st None =
     Inr \<lparr>entries = aggregate (\<lambda>n p. p\<lparr>prompt_meta := Some (with_server_name (prompt_meta p) n)\<rparr>)
                       prompts (capabilities st),
          nextCursor = None\<rparr>"
  unfolding list_prompts_def option.case
  by (simp add: foldl_aggregate [where acc = "[]", simplified])

lemma list_resources_eq:
  "list_resources st None use_namespace =
     Inr \<lparr>entries =
            aggregate (\<lambda>n r. r\<lparr>resource_uri :=
                                  (if use_namespace then n @ '':'' @ resource_uri r else resource_uri r),
                                resource_meta := Some (with_server_name (resource_meta r) n)\<rparr>)
              resources (capabilities st),
          nextCursor = None\<rparr>"
  unfolding list_resources_def option.case
  by (simp add: foldl_aggregate [where acc = "[]", simplified])

lemma list_resource_templates_eq:
  "list_resource_templates st None use_namespace =
     Inr \<lparr>entries =
            aggregate (\<lambda>n r. r\<lparr>template_uriTemplate :=
                                  (if use_namespace then n @ '':'' @ template_uriTemplate r
                                   else template_uriTemplate r),
                                template_meta := Some (with_server_name (template_meta r) n)\<rparr>)
              resource_templates (capabilities st),
          nextCursor = None\<rparr>"
  unfolding list_resource_templates_def option.case
  by (simp add: foldl_aggregate [where acc = "[]", simplified])

lemma with_server_name_lookup:
  "map_of (with_server_name m n) k =
     (if k = ''serverName'' then Some n
      else map_of (case m of None \<Rightarrow> [] | Some existing_meta \<Rightarrow> existing_meta) k)"
  by (simp add: with_server_name_def map_of_setitem)

lemma aggregate_member:
  "(n, c) \<in> set caps \<Longrightarrow> kind c = Some r \<Longrightarrow> x \<in> set (entries r) \<Longrightarrow>
   f n x \<in> set (aggregate f kind caps)"
  by (force simp: aggregate_def)

lemma split_colon_namespaced:
  "CHR '':'' \<notin> set p \<Longrightarrow> split_colon (p @ CHR '':'' # u) = (p, u)"
  by (induction p) (auto simp: split_colon_def)

section \<open>Reachable clients are consistent\<close>

lemma connect_all_Valid:
  "connect_all (Valid cfg) stack st =
     Inr (info ''Successfully connected to %d server(s)''
            [N (length (sessions (connect_loop stack cfg
                 (info ''Connecting to %d MCP servers...'' [N (length cfg)] st))))]
            (connect_loop stack cfg (info ''Connecting to %d MCP servers...'' [N (length cfg)] st)))"
  by (simp add: connect_all_def load_config_def Let_def)

lemma connect_all_Inr:
  "connect_all cf stack st = Inr st' \<Longrightarrow>
   \<exists>cfg. cf = Valid cfg \<and>
     st' = info ''Successfully connected to %d server(s)''
            [N (length (sessions (connect_loop stack cfg
                 (info ''Connecting to %d MCP servers...'' [N (length cfg)] st))))]
            (connect_loop stack cfg (info ''Connecting to %d MCP servers...'' [N (length cfg)] st))"
  by (cases cf) (auto simp: connect_all_def load_config_def Let_def)

lemma consistent_init: "consistent (init path lg)"
  by (simp add: consistent_def init_def dict_keys_def)

lemma consistent_connect_loop:
  assumes "consistent st"
  shows "consistent (connect_loop stack cfg st)"
proof -
  have k: "dict_keys (sessions st) = dict_keys (capabilities st)"
    using assms by (simp add: consistent_def)
  have "n \<in> dict_keys (sessions (connect_loop stack cfg st))"
    if "map_of (tool_to_server (connect_loop stack cfg st)) x = Some n" for x n
    using connect_loop_tool_owner [OF that] assms
    by (auto simp: connect_loop_session_keys consistent_def)
  moreover have "n \<in> dict_keys (sessions (connect_loop stack cfg st))"
    if "map_of (prompt_to_server (connect_loop stack cfg st)) x = Some n" for x n
    using connect_loop_prompt_owner [OF that] assms
    by (auto simp: connect_loop_session_keys consistent_def)
  ultimately show ?thesis
    unfolding consistent_def connect_loop_session_keys connect_loop_capability_keys k
    by (simp add: connect_loop_session_keys)
qed

lemma consistent_info: "consistent (info f a st) = consistent st"
  by (simp add: consistent_def)

lemma reachable_consistent: "reachable st \<Longrightarrow> consistent st"
proof (induction rule: reachable.induct)
  case (fresh path lg)
  show ?case by (rule consistent_init)
next
  case (rerun st cf stack st')
  from connect_all_Inr [OF rerun.hyps(2)] obtain cfg where
    "st' = info ''Successfully connected to %d server(s)''
            [N (length (sessions (connect_loop stack cfg
                 (info ''Connecting to %d MCP servers...'' [N (length cfg)] st))))]
            (connect_loop stack cfg (info ''Connecting to %d MCP servers...'' [N (length cfg)] st))"
    by blast
  then show ?case
    using rerun.IH by (simp add: consistent_info consistent_connect_loop)
qed

lemma consistent_getitem:
  assumes "consistent st"
  shows "map_of (tool_to_server st) x = Some n \<Longrightarrow> \<exists>s. getitem (sessions st) n = Inr s"
    and "map_of (prompt_to_server st) x = Some n \<Longrightarrow> \<exists>s. getitem (sessions st) n = Inr s"
    and "map_of (sessions st) n = Some s \<Longrightarrow> getitem (sessions st) n = Inr s"
    and "map_of (sessions st) n = Some s \<Longrightarrow> \<exists>c. getitem (capabilities st) n = Inr c"
  using assms
  by (auto simp: consistent_def getitem_def dict_keys_map_of split: option.split)

lemma call_tool_raises:
  assumes "consistent st"
    and "call_tool st name arguments t cb server_name = Inl e"
  shows "\<exists>n s. map_of (sessions st) n = Some s \<and> session_call_tool s name arguments t cb = Inl e"
proof (cases server_name)
  case None
  with assms(2) obtain n where n: "map_of (tool_to_server st) name = Some n"
    and r: "(case getitem (sessions st) n of Inl e \<Rightarrow> Inl e
             | Inr s \<Rightarrow> session_call_tool s name arguments t cb) = Inl e"
    by (auto simp: call_tool_def Let_def split: option.splits if_splits)
  from consistent_getitem(1) [OF assms(1) n] obtain s where "getitem (sessions st) n = Inr s" ..
  with r show ?thesis
    by (auto simp: getitem_def split: option.splits)
next
  case (Some n)
  with assms(2) obtain s where s: "map_of (sessions st) n = Some s"
    by (auto simp: call_tool_def Let_def split: option.splits)
  from consistent_getitem(4) [OF assms(1) s] obtain c where c: "getitem (capabilities st) n = Inr c" ..
  have g: "getitem (sessions st) n = Inr s"
    by (rule consistent_getitem(3) [OF assms(1) s])
  from assms(2) Some s c g have "session_call_tool s name arguments t cb = Inl e"
    by (auto simp: call_tool_def Let_def split: option.splits if_splits)
  with s show ?thesis by blast
qed

lemma get_prompt_raises:
  assumes "consistent st"
    and "get_prompt st name arguments server_name = Inl e"
  shows "(\<exists>n s. map_of (sessions st) n = Some s \<and>
            session_get_prompt s name (case arguments of None \<Rightarrow> [] | Some a \<Rightarrow> a) = Inl e) \<or>
         (\<exists>msg. e = McpError (- 32601) msg)"
proof (cases server_name)
  case None
  show ?thesis
  proof (cases "map_of (prompt_to_server st) name")
    case None
    with assms(2) \<open>server_name = None\<close> show ?thesis
      by (auto simp: get_prompt_def Let_def)
  next
    case (Some n)
    from consistent_getitem(2) [OF assms(1) Some] obtain s where g: "getitem (sessions st) n = Inr s" ..
    then have "map_of (sessions st) n = Some s"
      by (auto simp: getitem_def split: option.splits)
    with assms(2) \<open>server_name = None\<close> Some g show ?thesis
      by (auto simp: get_prompt_def Let_def split: if_splits)
  qed
next
  case (Some n)
  show ?thesis
  proof (cases "map_of (sessions st) n")
    case None
    with assms(2) Some show ?thesis
      by (auto simp: get_prompt_def Let_def)
  next
    case (Some s)
    from consistent_getitem(4) [OF assms(1) Some] obtain c where c: "getitem (capabilities st) n = Inr c" ..
    have g: "getitem (sessions st) n = Inr s"
      by (rule consistent_getitem(3) [OF assms(1) Some])
    from assms(2) \<open>server_name = Some n\<close> Some c g show ?thesis
      by (auto simp: get_prompt_def Let_def split: option.splits if_splits)
  qed
qed

lemma get_prompt_returns:
  assumes "consistent st"
    and "get_prompt st name arguments server_name = Inr res"
  shows "\<exists>n s. map_of (sessions st) n = Some s \<and>
            session_get_prompt s name (case arguments of None \<Rightarrow> [] | Some a \<Rightarrow> a) = Inr res"
proof (cases server_name)
  case None
  with assms(2) obtain n where n: "map_of (prompt_to_server st) name = Some n"
    and r: "(case getitem (sessions st) n of Inl e \<Rightarrow> Inl e
             | Inr s \<Rightarrow> session_get_prompt s name
                         (case arguments of None \<Rightarrow> [] | Some a \<Rightarrow> a)) = Inr res"
    by (auto simp: get_prompt_def Let_def split: option.splits if_splits)
  from consistent_getitem(2) [OF assms(1) n] obtain s where "getitem (sessions st) n = Inr s" ..
  with r show ?thesis
    by (auto simp: getitem_def split: option.splits)
next
  case (Some n)
  with assms(2) obtain s where s: "map_of (sessions st) n = Some s"
    by (auto simp: get_prompt_def Let_def split: option.splits)
  from consistent_getitem(4) [OF assms(1) s] obtain c where c: "getitem (capabilities st) n = Inr c" ..
  have g: "getitem (sessions st) n = Inr s"
    by (rule consistent_getitem(3) [OF assms(1) s])
  from assms(2) Some s c g
  have "session_get_prompt s name (case arguments of None \<Rightarrow> [] | Some a \<Rightarrow> a) = Inr res"
    by (auto simp: get_prompt_def Let_def split: option.splits if_splits)
  with s show ?thesis by blast
qed

lemma begun_fields [simp]:
  "config_path (begun cfg st) = config_path st"
  "sessions (begun cfg st) = sessions st"
  "capabilities (begun cfg st) = capabilities st"
  "tool_to_server (begun cfg st) = tool_to_server st"
  "prompt_to_server (begun cfg st) = prompt_to_server st"
  by (simp_all add: begun_def)

lemma connect_all_fields:
  assumes "connect_all (Valid cfg) stack st = Inr st'"
  shows "sessions st' = sessions (connect_loop stack cfg (begun cfg st))"
    and "capabilities st' = capabilities (connect_loop stack cfg (begun cfg st))"
    and "tool_to_server st' = tool_to_server (connect_loop stack cfg (begun cfg st))"
    and "prompt_to_server st' = prompt_to_server (connect_loop stack cfg (begun cfg st))"
    and "config_path st' = config_path st"
  using assms
  by (auto simp: connect_all_Valid begun_def connect_loop_config_path)

lemma init_fields [simp]:
  "config_path (init path lg) = path"
  "sessions (init path lg) = []"
  "capabilities (init path lg) = []"
  "tool_to_server (init path lg) = []"
  "prompt_to_server (init path lg) = []"
  "logged (init path lg) = lg"
  by (simp_all add: init_def)

lemma distinct_config_lookup:
  "distinct (map fst cfg) \<Longrightarrow> (n, c) \<in> set cfg \<Longrightarrow> map_of cfg n = Some c"
  by simp

lemma tool_names_recorded:
  "x \<in> tool_names s \<Longrightarrow>
   \<exists>r. tools (snapshot n s) = Some r \<and> x \<in> tool_name ` set (entries r)"
  by (auto simp: tool_names_def snapshot_def recorded_def split: sum.splits)

lemma prompt_names_recorded:
  "x \<in> prompt_names s \<Longrightarrow>
   \<exists>r. prompts (snapshot n s) = Some r \<and> x \<in> prompt_name ` set (entries r)"
  by (auto simp: prompt_names_def snapshot_def recorded_def split: sum.splits)

section \<open>Collision warnings\<close>

lemma map_tools_collision:
  "x \<in> tool_name ` set ts \<Longrightarrow> map_of (tool_to_server st) x = Some a \<Longrightarrow>
   tool_collision x a n \<in> set (logged (map_tools n ts st))"
proof (induction ts arbitrary: st)
  case Nil
  then show ?case by simp
next
  case (Cons t ts)
  show ?case
  proof (cases "tool_name t = x")
    case True
    let ?st1 = "warning (''Tool '%s' collision detected! Already provided by '%s', now overridden by '%s'' @ sq)
               [S x, S a, S n] st"
    have "tool_collision x a n \<in> set (logged (?st1\<lparr>tool_to_server := setitem (tool_to_server ?st1) x n\<rparr>))"
      by (simp add: tool_collision_def)
    also have "\<dots> \<subseteq> set (logged (map_tools n ts (?st1\<lparr>tool_to_server := setitem (tool_to_server ?st1) x n\<rparr>)))"
      by (rule map_tools_logged)
    finally show ?thesis
      using True Cons.prems(2) by (simp add: Let_def)
  next
    case False
    with Cons.prems(1) have x: "x \<in> tool_name ` set ts" by auto
    show ?thesis
      using False Cons.prems(2)
      by (auto simp: Let_def map_of_setitem split: option.split intro!: Cons.IH [OF x])
  qed
qed

lemma map_prompts_collision:
  "x \<in> prompt_name ` set ps \<Longrightarrow> map_of (prompt_to_server st) x = Some a \<Longrightarrow>
   prompt_collision x a n \<in> set (logged (map_prompts n ps st))"
proof (induction ps arbitrary: st)
  case Nil
  then show ?case by simp
next
  case (Cons p ps)
  show ?case
  proof (cases "prompt_name p = x")
    case True
    let ?st1 = "warning (''Prompt '%s' collision detected! Already provided by '%s', now overridden by '%s'' @ sq)
               [S x, S a, S n] st"
    have "prompt_collision x a n \<in> set (logged (?st1\<lparr>prompt_to_server := setitem (prompt_to_server ?st1) x n\<rparr>))"
      by (simp add: prompt_collision_def)
    also have "\<dots> \<subseteq> set (logged (map_prompts n ps (?st1\<lparr>prompt_to_server := setitem (prompt_to_server ?st1) x n\<rparr>)))"
      by (rule map_prompts_logged)
    finally show ?thesis
      using True Cons.prems(2) by (simp add: Let_def)
  next
    case False
    with Cons.prems(1) have x: "x \<in> prompt_name ` set ps" by auto
    show ?thesis
      using False Cons.prems(2)
      by (auto simp: Let_def map_of_setitem split: option.split intro!: Cons.IH [OF x])
  qed
qed

lemma get_tools_collision:
  assumes "x \<in> tool_names s" and "map_of (tool_to_server (fst p)) x = Some a"
  shows "tool_collision x a n \<in> set (logged (fst (get_tools s n p)))"
proof -
  obtain st caps where p: "p = (st, caps)" by (cases p)
  from assms(1) obtain r where r: "session_list_tools s = Inr r" "x \<in> tool_name ` set (entries r)"
    by (auto simp: tool_names_def split: sum.splits)
  show ?thesis
    using assms(2) r(1)
    by (auto simp: p get_tools_def intro!: map_tools_collision [OF r(2)])
qed

lemma get_prompts_collision:
  assumes "x \<in> prompt_names s" and "map_of (prompt_to_server (fst p)) x = Some a"
  shows "prompt_collision x a n \<in> set (logged (fst (get_prompts s n p)))"
proof -
  obtain st caps where p: "p = (st, caps)" by (cases p)
  from assms(1) obtain r where r: "session_list_prompts s = Inr r" "x \<in> prompt_name ` set (entries r)"
    by (auto simp: prompt_names_def split: sum.splits)
  show ?thesis
    using assms(2) r(1)
    by (auto simp: p get_prompts_def intro!: map_prompts_collision [OF r(2)])
qed

lemma discovered_logged: "set (logged st) \<subseteq> set (logged (fst (discovered s n st)))"
proof -
  let ?p0 = "(st, \<lparr>cap_name = n, tools = None, resources = None,
              resource_templates = None, prompts = None\<rparr>)"
  have "set (logged st) \<subseteq> set (logged (fst (get_tools s n ?p0)))"
    using get_tools_logged [of ?p0 s n] by simp
  also have "\<dots> \<subseteq> set (logged (fst (get_resources s n (get_tools s n ?p0))))"
    by (rule get_resources_logged)
  also have "\<dots> \<subseteq> set (logged (fst (get_resource_templates s n
                       (get_resources s n (get_tools s n ?p0)))))"
    by (rule get_resource_templates_logged)
  also have "\<dots> \<subseteq> set (logged (fst (discovered s n st)))"
    unfolding discovered_def by (rule get_prompts_logged)
  finally show ?thesis .
qed

lemma discovered_tool_collision:
  assumes "x \<in> tool_names s" and "map_of (tool_to_server st) x = Some a"
  shows "tool_collision x a n \<in> set (logged (fst (discovered s n st)))"
proof -
  let ?p0 = "(st, \<lparr>cap_name = n, tools = None, resources = None,
              resource_templates = None, prompts = None\<rparr>)"
  have "tool_collision x a n \<in> set (logged (fst (get_tools s n ?p0)))"
    using assms by (intro get_tools_collision) simp_all
  also have "\<dots> \<subseteq> set (logged (fst (get_resources s n (get_tools s n ?p0))))"
    by (rule get_resources_logged)
  also have "\<dots> \<subseteq> set (logged (fst (get_resource_templates s n
                       (get_resources s n (get_tools s n ?p0)))))"
    by (rule get_resource_templates_logged)
  also have "\<dots> \<subseteq> set (logged (fst (discovered s n st)))"
    unfolding discovered_def by (rule get_prompts_logged)
  finally show ?thesis .
qed

lemma discovered_prompt_collision:
  assumes "x \<in> prompt_names s" and "map_of (prompt_to_server st) x = Some a"
  shows "prompt_collision x a n \<in> set (logged (fst (discovered s n st)))"
  unfolding discovered_def
  using assms by (intro get_prompts_collision) simp_all

lemma connect_step_logged: "set (logged st) \<subseteq> set (logged (connect_step stack n c st))"
proof (cases "opened stack n c")
  case None
  then show ?thesis
    by (auto simp: connect_step_def connect_server_eq split: option.split)
next
  case (Some s)
  let ?st = "(info ''[%s] Connecting...'' [S n] st)\<lparr>sessions := setitem (sessions st) n s\<rparr>"
  have "set (logged st) \<subseteq> set (logged ?st)" by auto
  also have "\<dots> \<subseteq> set (logged (fst (discovered s n ?st)))"
    by (rule discovered_logged)
  finally show ?thesis
    using Some by (simp add: connect_step_def connect_server_eq Let_def)
qed

lemma connect_step_tool_collision:
  assumes "opened stack n c = Some s" and "x \<in> tool_names s"
    and "map_of (tool_to_server st) x = Some a"
  shows "tool_collision x a n \<in> set (logged (connect_step stack n c st))"
proof -
  let ?st = "(info ''[%s] Connecting...'' [S n] st)\<lparr>sessions := setitem (sessions st) n s\<rparr>"
  have "tool_collision x a n \<in> set (logged (fst (discovered s n ?st)))"
    using assms(2,3) by (intro discovered_tool_collision) simp_all
  then show ?thesis
    using assms(1) by (simp add: connect_step_def connect_server_eq Let_def)
qed

lemma connect_step_prompt_collision:
  assumes "opened stack n c = Some s" and "x \<in> prompt_names s"
    and "map_of (prompt_to_server st) x = Some a"
  shows "prompt_collision x a n \<in> set (logged (connect_step stack n c st))"
proof -
  let ?st = "(info ''[%s] Connecting...'' [S n] st)\<lparr>sessions := setitem (sessions st) n s\<rparr>"
  have "prompt_collision x a n \<in> set (logged (fst (discovered s n ?st)))"
    using assms(2,3) by (intro discovered_prompt_collision) simp_all
  then show ?thesis
    using assms(1) by (simp add: connect_step_def connect_server_eq Let_def)
qed

lemma connect_loop_logged: "set (logged st) \<subseteq> set (logged (connect_loop stack cfg st))"
proof (induction cfg arbitrary: st)
  case Nil
  show ?case by simp
next
  case (Cons a cfg)
  obtain n c where a: "a = (n, c)" by (cases a)
  have "set (logged st) \<subseteq> set (logged (connect_step stack n c st))"
    by (rule connect_step_logged)
  also have "\<dots> \<subseteq> set (logged (connect_loop stack cfg (connect_step stack n c st)))"
    by (rule Cons.IH)
  finally show ?case by (simp add: a connect_loop_Cons)
qed

lemma silent_on_toolD:
  "silent_on_tool stack x cfg \<Longrightarrow> (n, c) \<in> set cfg \<Longrightarrow> opened stack n c = Some s \<Longrightarrow>
   x \<notin> tool_names s"
  by (auto simp: silent_on_tool_def)

lemma silent_on_promptD:
  "silent_on_prompt stack x cfg \<Longrightarrow> (n, c) \<in> set cfg \<Longrightarrow> opened stack n c = Some s \<Longrightarrow>
   x \<notin> prompt_names s"
  by (auto simp: silent_on_prompt_def)

lemma connect_loop_tool_collision:
  assumes a: "opened stack A ca = Some sa" "x \<in> tool_names sa"
    and b: "opened stack B cb = Some sb" "x \<in> tool_names sb"
    and mid: "silent_on_tool stack x mid" and post: "silent_on_tool stack x post"
  shows "map_of (tool_to_server (connect_loop stack (pre @ (A, ca) # mid @ (B, cb) # post) st)) x =
           Some B \<and>
         tool_collision x A B \<in>
           set (logged (connect_loop stack (pre @ (A, ca) # mid @ (B, cb) # post) st))"
proof -
  let ?st1 = "connect_loop stack (pre @ (A, ca) # mid) st"
  have owner: "map_of (tool_to_server ?st1) x = Some A"
    using a by (rule connect_loop_tool_last) (rule silent_on_toolD [OF mid])
  have split: "connect_loop stack (pre @ (A, ca) # mid @ (B, cb) # post) st =
               connect_loop stack post (connect_step stack B cb ?st1)"
    using connect_loop_append [of stack "pre @ (A, ca) # mid" "(B, cb) # post" st]
    by (simp add: connect_loop_Cons)
  have "tool_collision x A B \<in> set (logged (connect_step stack B cb ?st1))"
    using b owner by (rule connect_step_tool_collision)
  also have "\<dots> \<subseteq> set (logged (connect_loop stack post (connect_step stack B cb ?st1)))"
    by (rule connect_loop_logged)
  finally have "tool_collision x A B \<in>
      set (logged (connect_loop stack (pre @ (A, ca) # mid @ (B, cb) # post) st))"
    by (simp add: split)
  moreover have "map_of (tool_to_server (connect_loop stack (pre @ (A, ca) # mid @ (B, cb) # post) st)) x =
           Some B"
    using connect_loop_tool_last [OF b, of post "pre @ (A, ca) # mid" st] silent_on_toolD [OF post]
    by simp
  ultimately show ?thesis by simp
qed

lemma connect_loop_prompt_collision:
  assumes a: "opened stack A ca = Some sa" "x \<in> prompt_names sa"
    and b: "opened stack B cb = Some sb" "x \<in> prompt_names sb"
    and mid: "silent_on_prompt stack x mid" and post: "silent_on_prompt stack x post"
  shows "map_of (prompt_to_server (connect_loop stack (pre @ (A, ca) # mid @ (B, cb) # post) st)) x =
           Some B \<and>
         prompt_collision x A B \<in>
           set (logged (connect_loop stack (pre @ (A, ca) # mid @ (B, cb) # post) st))"
proof -
  let ?st1 = "connect_loop stack (pre @ (A, ca) # mid) st"
  have owner: "map_of (prompt_to_server ?st1) x = Some A"
    using a by (rule connect_loop_prompt_last) (rule silent_on_promptD [OF mid])
  have split: "connect_loop stack (pre @ (A, ca) # mid @ (B, cb) # post) st =
               connect_loop stack post (connect_step stack B cb ?st1)"
    using connect_loop_append [of stack "pre @ (A, ca) # mid" "(B, cb) # post" st]
    by (simp add: connect_loop_Cons)
  have "prompt_collision x A B \<in> set (logged (connect_step stack B cb ?st1))"
    using b owner by (rule connect_step_prompt_collision)
  also have "\<dots> \<subseteq> set (logged (connect_loop stack post (connect_step stack B cb ?st1)))"
    by (rule connect_loop_logged)
  finally have "prompt_collision x A B \<in>
      set (logged (connect_loop stack (pre @ (A, ca) # mid @ (B, cb) # post) st))"
    by (simp add: split)
  moreover have "map_of (prompt_to_server (connect_loop stack (pre @ (A, ca) # mid @ (B, cb) # post) st)) x =
           Some B"
    using connect_loop_prompt_last [OF b, of post "pre @ (A, ca) # mid" st] silent_on_promptD [OF post]
    by simp
  ultimately show ?thesis by simp
qed

lemma connect_all_logged:
  "connect_all (Valid cfg) stack st = Inr st' \<Longrightarrow>
   set (logged (connect_loop stack cfg (begun cfg st))) \<subseteq> set (logged st')"
  by (auto simp: connect_all_Valid begun_def)

section \<open>Names advertised in a run\<close>

lemma connect_loop_tool_bound:
  "(n, c) \<in> set cfg \<Longrightarrow> opened stack n c = Some s \<Longrightarrow> x \<in> tool_names s \<Longrightarrow>
   \<exists>n' c' s'. map_of (tool_to_server (connect_loop stack cfg st)) x = Some n' \<and>
      (n', c') \<in> set cfg \<and> opened stack n' c' = Some s' \<and> x \<in> tool_names s'"
proof (induction cfg arbitrary: st n c s)
  case Nil
  then show ?case by simp
next
  case (Cons a cfg)
  obtain m d where a: "a = (m, d)" by (cases a)
  show ?case
  proof (cases "silent_on_tool stack x cfg")
    case True
    have first: "(n, c) = (m, d)"
      using Cons.prems True by (auto simp: a silent_on_tool_def)
    have "map_of (tool_to_server (connect_loop stack cfg (connect_step stack m d st))) x =
          map_of (tool_to_server (connect_step stack m d st)) x"
      by (rule connect_loop_tool_unchanged) (rule silent_on_toolD [OF True])
    also have "\<dots> = Some m"
      using Cons.prems(2,3) first by (simp add: connect_step_tool_lookup)
    finally show ?thesis
      using Cons.prems(2,3) first by (auto simp: a connect_loop_Cons)
  next
    case False
    then obtain n2 c2 s2 where "(n2, c2) \<in> set cfg" "opened stack n2 c2 = Some s2" "x \<in> tool_names s2"
      by (auto simp: silent_on_tool_def split: option.splits)
    from Cons.IH [OF this, of "connect_step stack m d st"] show ?thesis
      by (auto simp: a connect_loop_Cons)
  qed
qed

lemma connect_loop_prompt_bound:
  "(n, c) \<in> set cfg \<Longrightarrow> opened stack n c = Some s \<Longrightarrow> x \<in> prompt_names s \<Longrightarrow>
   \<exists>n' c' s'. map_of (prompt_to_server (connect_loop stack cfg st)) x = Some n' \<and>
      (n', c') \<in> set cfg \<and> opened stack n' c' = Some s' \<and> x \<in> prompt_names s'"
proof (induction cfg arbitrary: st n c s)
  case Nil
  then show ?case by simp
next
  case (Cons a cfg)
  obtain m d where a: "a = (m, d)" by (cases a)
  show ?case
  proof (cases "silent_on_prompt stack x cfg")
    case True
    have first: "(n, c) = (m, d)"
      using Cons.prems True by (auto simp: a silent_on_prompt_def)
    have "map_of (prompt_to_server (connect_loop stack cfg (connect_step stack m d st))) x =
          map_of (prompt_to_server (connect_step stack m d st)) x"
      by (rule connect_loop_prompt_unchanged) (rule silent_on_promptD [OF True])
    also have "\<dots> = Some m"
      using Cons.prems(2,3) first by (simp add: connect_step_prompt_lookup)
    finally show ?thesis
      using Cons.prems(2,3) first by (auto simp: a connect_loop_Cons)
  next
    case False
    then obtain n2 c2 s2 where "(n2, c2) \<in> set cfg" "opened stack n2 c2 = Some s2" "x \<in> prompt_names s2"
      by (auto simp: silent_on_prompt_def split: option.splits)
    from Cons.IH [OF this, of "connect_step stack m d st"] show ?thesis
      by (auto simp: a connect_loop_Cons)
  qed
qed

lemma map_aggregate: "map g (aggregate f kind caps) = aggregate (\<lambda>n x. g (f n x)) kind caps"
  by (induction caps) (auto simp: aggregate_def split: option.split)

section \<open>The example run\<close>

lemma example_opened:
  "opened example_stack ''inv'' python = Some inv_session"
  "opened example_stack ''notes'' python = Some notes_session"
  "opened example_stack ''shop'' python = Some shop_session"
  "opened example_stack ''down'' python = None"
  "opened second_stack ''inv'' python = None"
  "opened second_stack ''notes'' python = Some shop_session"
  "opened second_stack ''down'' python = None"
  by (simp_all add: opened_def example_stack_def second_stack_def inv_session_def notes_session_def
      shop_session_def example_session_def)

lemma example_names:
  "tool_names inv_session = {''get_item'', ''search''}"
  "tool_names notes_session = {}"
  "tool_names shop_session = {''search''}"
  "prompt_names inv_session = {''report''}"
  "prompt_names notes_session = {}"
  "prompt_names shop_session = {''report''}"
  by (auto simp: tool_names_def prompt_names_def inv_session_def notes_session_def
      shop_session_def example_session_def)

lemma example_sessions:
  "sessions example_client = [(''inv'', inv_session), (''notes'', notes_session)]"
  by (simp add: example_client_def example_config_def connect_loop_Cons connect_step_sessions
      example_opened)

lemma example_capabilities:
  "capabilities example_client =
     [(''inv'', snapshot ''inv'' inv_session), (''notes'', snapshot ''notes'' notes_session)]"
  by (simp add: example_client_def example_config_def connect_loop_Cons connect_step_capabilities
      example_opened)

lemma example_tool_lookup:
  "map_of (tool_to_server example_client) x =
     (if x = ''get_item'' \<or> x = ''search'' then Some ''inv'' else None)"
  by (simp add: example_client_def example_config_def connect_loop_Cons connect_step_tool_lookup
      example_opened example_names)

lemma example_prompt_lookup:
  "map_of (prompt_to_server example_client) x = (if x = ''report'' then Some ''inv'' else None)"
  by (simp add: example_client_def example_config_def connect_loop_Cons connect_step_prompt_lookup
      example_opened example_names)

lemma example_connect_all:
  "connect_all (Valid example_config) example_stack (init ''mcp_servers.json'' []) =
     Inr example_client"
  unfolding connect_all_Valid
  by (simp add: example_client_def example_config_def connect_loop_Cons connect_step_sessions
      example_opened eval_nat_numeral)

lemma example_reachable: "reachable example_client"
  using reachable.fresh example_connect_all by (rule reachable.rerun)

lemma rerun_connect_all:
  "connect_all (Valid example_config) second_stack example_client = Inr rerun_client"
  unfolding connect_all_Valid
  by (simp add: rerun_client_def example_config_def connect_loop_Cons connect_step_sessions
      example_opened example_sessions eval_nat_numeral)

lemma example_snapshots:
  "snapshot ''inv'' inv_session =
     \<lparr>cap_name = ''inv'',
      tools = Some \<lparr>entries =
               [\<lparr>tool_name = ''get_item'', tool_body = ''{}'', tool_meta = None\<rparr>,
                \<lparr>tool_name = ''search'', tool_body = ''{}'',
                 tool_meta = Some [(''serverName'', ''upstream''), (''origin'', ''cache'')]\<rparr>],
             nextCursor = None\<rparr>,
      resources = Some \<lparr>entries =
               [\<lparr>resource_uri = ''inventory://overview'', resource_name = ''Inventory Overview'',
                 resource_body = '''', resource_meta = None\<rparr>],
             nextCursor = None\<rparr>,
      resource_templates = Some \<lparr>entries =
               [\<lparr>template_uriTemplate = ''inventory://item/{id}'', template_name = ''Item'',
                 template_body = '''', template_meta = None\<rparr>],
             nextCursor = None\<rparr>,
      prompts = Some \<lparr>entries = [\<lparr>prompt_name = ''report'', prompt_body = '''', prompt_meta = None\<rparr>],
             nextCursor = None\<rparr>\<rparr>"
  "snapshot ''notes'' notes_session =
     \<lparr>cap_name = ''notes'', tools = None,
      resources = Some \<lparr>entries = [], nextCursor = None\<rparr>,
      resource_templates = None, prompts = None\<rparr>"
  by (simp_all add: snapshot_def recorded_def inv_session_def notes_session_def example_session_def)

lemma rerun_sessions:
  "sessions rerun_client = [(''inv'', inv_session), (''notes'', shop_session)]"
  by (simp add: rerun_client_def example_config_def connect_loop_Cons connect_step_sessions
      example_opened example_sessions)

lemma rerun_capabilities:
  "capabilities rerun_client =
     [(''inv'', snapshot ''inv'' inv_session), (''notes'', snapshot ''notes'' shop_session)]"
  by (simp add: rerun_client_def example_config_def connect_loop_Cons connect_step_capabilities
      example_opened example_capabilities)

lemma rerun_tool_lookup:
  "map_of (tool_to_server rerun_client) x =
     (if x = ''search'' then Some ''notes'' else if x = ''get_item'' then Some ''inv'' else None)"
  by (simp add: rerun_client_def example_config_def connect_loop_Cons connect_step_tool_lookup
      example_opened example_names example_tool_lookup)

lemma rerun_prompt_lookup:
  "map_of (prompt_to_server rerun_client) x = (if x = ''report'' then Some ''notes'' else None)"
  by (simp add: rerun_client_def example_config_def connect_loop_Cons connect_step_prompt_lookup
      example_opened example_names example_prompt_lookup)

lemma example_distinct: "distinct (map fst example_config)"
  by (simp add: example_config_def)

lemma example_silent:
  "silent_on_tool example_stack ''search'' [(''notes'', python)]"
  "silent_on_tool example_stack ''search'' [(''down'', python)]"
  "silent_on_prompt example_stack ''report'' [(''notes'', python)]"
  "silent_on_prompt example_stack ''report'' [(''down'', python)]"
  by (simp_all add: silent_on_tool_def silent_on_prompt_def example_opened example_names)

section \<open>The claims\<close>

subsection \<open>C1: discovery degrades gracefully\<close>

text \<open>
  Claim C1. For every valid configuration (a dictionary, so its provider names are
  distinct) \<open>connect_all\<close> on a freshly constructed client returns normally, whatever the
  providers do. Afterwards the keys of \<open>sessions\<close> and of \<open>capabilities\<close> are exactly the
  providers whose connection opened and initialized: a provider that failed is in neither
  and owns no entry of \<open>tool_to_server\<close> or \<open>prompt_to_server\<close>, and the number of configured
  providers missing from \<open>sessions\<close> is the number that failed. A provider that connected
  is registered with its session, and its snapshot holds for each of the four kinds,
  independently of the other three, the result of that kind's query, or \<open>None\<close> when that
  query failed. From any other starting client \<open>connect_all\<close> returns normally as well.
\<close>

theorem connect_all_degrades_gracefully:
  assumes "distinct (map fst cfg)"
  shows "\<exists>st. connect_all (Valid cfg) stack (init path lg) = Inr st \<and>
    dict_keys (sessions st) = {n. \<exists>c. (n, c) \<in> set cfg \<and> opened stack n c \<noteq> None} \<and>
    dict_keys (capabilities st) = {n. \<exists>c. (n, c) \<in> set cfg \<and> opened stack n c \<noteq> None} \<and>
    (\<forall>(n, c) \<in> set cfg. opened stack n c = None \<longrightarrow>
       n \<notin> dict_keys (sessions st) \<and> n \<notin> dict_keys (capabilities st) \<and>
       n \<notin> ran (map_of (tool_to_server st)) \<and> n \<notin> ran (map_of (prompt_to_server st))) \<and>
    (\<forall>(n, c) \<in> set cfg. \<forall>s. opened stack n c = Some s \<longrightarrow>
       map_of (sessions st) n = Some s \<and>
       map_of (capabilities st) n =
         Some \<lparr>cap_name = n,
               tools = recorded (session_list_tools s),
               resources = recorded (session_list_resources s),
               resource_templates = recorded (session_list_resource_templates s),
               prompts = recorded (session_list_prompts s)\<rparr>) \<and>
    length (filter (\<lambda>(n, c). n \<notin> dict_keys (sessions st)) cfg) =
      length (filter (\<lambda>(n, c). opened stack n c = None) cfg) \<and>
    (\<exists>st'. connect_all (Valid cfg) stack st0 = Inr st')"
proof -
  obtain st where st: "connect_all (Valid cfg) stack (init path lg) = Inr st"
    by (simp add: connect_all_Valid)
  have any: "\<exists>st'. connect_all (Valid cfg) stack st0 = Inr st'"
    by (simp add: connect_all_Valid)
  note f = connect_all_fields [OF st]
  let ?ok = "{n. \<exists>c. (n, c) \<in> set cfg \<and> opened stack n c \<noteq> None}"
  have ks: "dict_keys (sessions st) = ?ok"
    unfolding f connect_loop_session_keys by (simp add: dict_keys_def)
  have kc: "dict_keys (capabilities st) = ?ok"
    unfolding f connect_loop_capability_keys by (simp add: dict_keys_def)
  have failed: "n \<notin> ?ok" if "(n, c) \<in> set cfg" "opened stack n c = None" for n c
  proof
    assume "n \<in> ?ok"
    then obtain c' where c': "(n, c') \<in> set cfg" "opened stack n c' \<noteq> None" by blast
    from distinct_config_lookup [OF assms that(1)] distinct_config_lookup [OF assms c'(1)]
    have "c' = c" by simp
    with c'(2) that(2) show False by simp
  qed
  have tr: "n \<in> ?ok" if "n \<in> ran (map_of (tool_to_server st))" for n
  proof -
    from that obtain x where "map_of (tool_to_server st) x = Some n"
      by (auto simp: ran_def)
    with connect_loop_tool_owner [of stack cfg "begun cfg (init path lg)" x n]
    show ?thesis by (auto simp: f)
  qed
  have pr: "n \<in> ?ok" if "n \<in> ran (map_of (prompt_to_server st))" for n
  proof -
    from that obtain x where "map_of (prompt_to_server st) x = Some n"
      by (auto simp: ran_def)
    with connect_loop_prompt_owner [of stack cfg "begun cfg (init path lg)" x n]
    show ?thesis by (auto simp: f)
  qed
  have absent: "n \<notin> dict_keys (sessions st) \<and> n \<notin> dict_keys (capabilities st) \<and>
       n \<notin> ran (map_of (tool_to_server st)) \<and> n \<notin> ran (map_of (prompt_to_server st))"
    if "(n, c) \<in> set cfg" "opened stack n c = None" for n c
    using failed [OF that] tr [of n] pr [of n] by (auto simp: ks kc)
  have present: "map_of (sessions st) n = Some s \<and>
       map_of (capabilities st) n =
         Some \<lparr>cap_name = n,
               tools = recorded (session_list_tools s),
               resources = recorded (session_list_resources s),
               resource_templates = recorded (session_list_resource_templates s),
               prompts = recorded (session_list_prompts s)\<rparr>"
    if "(n, c) \<in> set cfg" "opened stack n c = Some s" for n c s
    using that(2) distinct_config_lookup [OF assms that(1)]
    by (simp add: f connect_loop_session_lookup [OF assms]
        connect_loop_capability_lookup [OF assms] snapshot_def)
  have count: "length (filter (\<lambda>(n, c). n \<notin> dict_keys (sessions st)) cfg) =
      length (filter (\<lambda>(n, c). opened stack n c = None) cfg)"
  proof -
    have "filter (\<lambda>(n, c). n \<notin> dict_keys (sessions st)) cfg =
          filter (\<lambda>(n, c). opened stack n c = None) cfg"
    proof (rule filter_cong [OF refl])
      fix a assume a: "a \<in> set cfg"
      obtain n c where nc: "a = (n, c)" by (cases a)
      show "(case a of (n, c) \<Rightarrow> n \<notin> dict_keys (sessions st)) =
            (case a of (n, c) \<Rightarrow> opened stack n c = None)"
        using a failed [of n c] by (auto simp: nc ks)
    qed
    then show ?thesis by simp
  qed
  show ?thesis
    using st ks kc absent present count any by blast
qed

theorem connect_all_degrades_gracefully_witness:
  "distinct (map fst example_config) \<and>
   connect_all (Valid example_config) example_stack (init ''mcp_servers.json'' []) =
     Inr example_client \<and>
   dict_keys (sessions example_client) = {''inv'', ''notes''} \<and>
   dict_keys (capabilities example_client) = {''inv'', ''notes''} \<and>
   ((''down'', python) \<in> set example_config \<and> opened example_stack ''down'' python = None) \<and>
   ''down'' \<notin> dict_keys (sessions example_client) \<and>
   ''down'' \<notin> dict_keys (capabilities example_client) \<and>
   ''down'' \<notin> ran (map_of (tool_to_server example_client)) \<and>
   ''down'' \<notin> ran (map_of (prompt_to_server example_client)) \<and>
   ((''notes'', python) \<in> set example_config \<and>
    opened example_stack ''notes'' python = Some notes_session) \<and>
   map_of (sessions example_client) ''notes'' = Some notes_session \<and>
   map_of (capabilities example_client) ''notes'' =
     Some \<lparr>cap_name = ''notes'', tools = None,
           resources = Some \<lparr>entries = [], nextCursor = None\<rparr>,
           resource_templates = None, prompts = None\<rparr> \<and>
   length (filter (\<lambda>(n, c). n \<notin> dict_keys (sessions example_client)) example_config) = 1"
proof -
  from connect_all_degrades_gracefully [OF example_distinct, of example_stack "''mcp_servers.json''" "[]"]
  obtain st where st: "connect_all (Valid example_config) example_stack (init ''mcp_servers.json'' []) = Inr st"
    and keys: "dict_keys (sessions st) =
                 {n. \<exists>c. (n, c) \<in> set example_config \<and> opened example_stack n c \<noteq> None}"
      "dict_keys (capabilities st) =
                 {n. \<exists>c. (n, c) \<in> set example_config \<and> opened example_stack n c \<noteq> None}"
    and absent: "\<forall>(n, c) \<in> set example_config. opened example_stack n c = None \<longrightarrow>
       n \<notin> dict_keys (sessions st) \<and> n \<notin> dict_keys (capabilities st) \<and>
       n \<notin> ran (map_of (tool_to_server st)) \<and> n \<notin> ran (map_of (prompt_to_server st))"
    and present: "\<forall>(n, c) \<in> set example_config. \<forall>s. opened example_stack n c = Some s \<longrightarrow>
       map_of (sessions st) n = Some s \<and>
       map_of (capabilities st) n =
         Some \<lparr>cap_name = n,
               tools = recorded (session_list_tools s),
               resources = recorded (session_list_resources s),
               resource_templates = recorded (session_list_resource_templates s),
               prompts = recorded (session_list_prompts s)\<rparr>"
    and count: "length (filter (\<lambda>(n, c). n \<notin> dict_keys (sessions st)) example_config) =
      length (filter (\<lambda>(n, c). opened example_stack n c = None) example_config)"
    by blast
  from st have eq: "st = example_client"
    by (simp add: example_connect_all)
  have down: "(''down'', python) \<in> set example_config" "opened example_stack ''down'' python = None"
    and nts: "(''notes'', python) \<in> set example_config"
      "opened example_stack ''notes'' python = Some notes_session"
    by (simp_all add: example_config_def example_opened)
  have k: "{n. \<exists>c. (n, c) \<in> set example_config \<and> opened example_stack n c \<noteq> None} = {''inv'', ''notes''}"
    by (auto simp: example_config_def example_opened)
  have n: "length (filter (\<lambda>(n, c). opened example_stack n c = None) example_config) = 1"
    by (simp add: example_config_def example_opened)
  have q: "recorded (session_list_tools notes_session) = None"
    "recorded (session_list_resources notes_session) = Some \<lparr>entries = [], nextCursor = None\<rparr>"
    "recorded (session_list_resource_templates notes_session) = None"
    "recorded (session_list_prompts notes_session) = None"
    by (simp_all add: recorded_def notes_session_def example_session_def)
  from absent down have "''down'' \<notin> dict_keys (sessions st) \<and> ''down'' \<notin> dict_keys (capabilities st) \<and>
       ''down'' \<notin> ran (map_of (tool_to_server st)) \<and> ''down'' \<notin> ran (map_of (prompt_to_server st))"
    by auto
  moreover from present nts have "map_of (sessions st) ''notes'' = Some notes_session \<and>
       map_of (capabilities st) ''notes'' =
         Some \<lparr>cap_name = ''notes'',
               tools = recorded (session_list_tools notes_session),
               resources = recorded (session_list_resources notes_session),
               resource_templates = recorded (session_list_resource_templates notes_session),
               prompts = recorded (session_list_prompts notes_session)\<rparr>"
    by auto
  ultimately show ?thesis
    using st keys count down nts example_distinct
    unfolding eq k n q by simp
qed

subsection \<open>C2: resolution of \<open>read_resource\<close>\<close>

text \<open>
  The claim says that a URI whose left segment is a connected server is forwarded to that
  server with the remainder as the URI, and that with an explicit server the URI is passed
  through to the provider. The remainder (or the URI) first goes through \<open>AnyUrl(...)\<close>:
  \<open>overview\<close> is not a URL, so \<open>read_resource\<close> of \<open>inv:overview\<close>, and of \<open>overview\<close> with the
  server \<open>inv\<close> given, raises the constructor's \<open>ValidationError\<close> although \<open>inv\<close> is connected
  and its session would have answered.
\<close>

theorem read_resource_rejects_invalid_url:
  "connect_all (Valid example_config) example_stack (init ''mcp_servers.json'' []) =
     Inr example_client \<and>
   map_of (sessions example_client) ''inv'' = Some inv_session \<and>
   split_colon ''inv:overview'' = (''inv'', ''overview'') \<and>
   example_AnyUrl ''overview'' = Inl (ValidationError ''relative URL without a base'') \<and>
   session_read_resource inv_session (Url ''overview'') = Inr ''overview'' \<and>
   read_resource example_AnyUrl example_client ''inv:overview'' None =
     Inl (ValidationError ''relative URL without a base'') \<and>
   read_resource example_AnyUrl example_client ''overview'' (Some ''inv'') =
     Inl (ValidationError ''relative URL without a base'')"
proof -
  have "split_colon ''inv:overview'' = (''inv'', ''overview'')"
    by (simp add: split_colon_def)
  moreover have "session_read_resource inv_session (Url ''overview'') = Inr ''overview''"
    by (simp add: inv_session_def example_session_def)
  ultimately show ?thesis
    by (simp add: example_connect_all example_sessions read_resource_def example_AnyUrl_def
        Let_def)
qed

text \<open>
  Claim C2, amended. With an explicit \<open>server_name\<close>, \<open>read_resource\<close> raises \<open>McpError\<close>
  (\<open>Unknown server\<close>) when the name is not a key of \<open>sessions\<close>; otherwise it hands the URI as
  given, prefix included, to \<open>AnyUrl(...)\<close> and forwards the resulting URL to that server's
  session. Without a server name, a URI whose segment left of the first colon is a
  connected server has the remainder handed to \<open>AnyUrl(...)\<close> and the resulting URL forwarded
  to that server. In both cases a text that \<open>AnyUrl\<close> rejects makes its exception propagate,
  and no session is called. A URI without a colon, or whose left segment is not a connected
  server, raises \<open>McpError\<close> (\<open>Must specify server_name or use namespaced URI format\<close>),
  whatever \<open>AnyUrl\<close> would say of it.
\<close>

theorem read_resource_resolution:
  "read_resource AnyUrl st uri (Some server_name) =
     (case map_of (sessions st) server_name of
        None \<Rightarrow> Inl (McpError (- 32601) (''Unknown server: '' @ server_name))
      | Some s \<Rightarrow>
          (case AnyUrl uri of Inl e \<Rightarrow> Inl e | Inr url \<Rightarrow> session_read_resource s url)) \<and>
   (CHR '':'' \<notin> set left \<and> map_of (sessions st) left = Some s' \<longrightarrow>
      read_resource AnyUrl st (left @ '':'' @ rest) None =
        (case AnyUrl rest of Inl e \<Rightarrow> Inl e | Inr url \<Rightarrow> session_read_resource s' url)) \<and>
   (CHR '':'' \<notin> set plain \<longrightarrow>
      read_resource AnyUrl st plain None =
        Inl (McpError (- 32601)
               ''Must specify server_name or use namespaced URI format (server:uri)'')) \<and>
   (CHR '':'' \<notin> set other \<and> map_of (sessions st) other = None \<longrightarrow>
      read_resource AnyUrl st (other @ '':'' @ rest') None =
        Inl (McpError (- 32601)
               ''Must specify server_name or use namespaced URI format (server:uri)''))"
proof -
  have explicit: "read_resource AnyUrl st uri (Some server_name) =
     (case map_of (sessions st) server_name of
        None \<Rightarrow> Inl (McpError (- 32601) (''Unknown server: '' @ server_name))
      | Some s \<Rightarrow>
          (case AnyUrl uri of Inl e \<Rightarrow> Inl e | Inr url \<Rightarrow> session_read_resource s url))"
    by (simp add: read_resource_def Let_def)
  have routed: "read_resource AnyUrl st (left @ '':'' @ rest) None =
        (case AnyUrl rest of Inl e \<Rightarrow> Inl e | Inr url \<Rightarrow> session_read_resource s' url)"
    if "CHR '':'' \<notin> set left" "map_of (sessions st) left = Some s'"
    using that by (simp add: read_resource_def split_colon_namespaced Let_def)
  have unrouted: "read_resource AnyUrl st plain None =
        Inl (McpError (- 32601)
               ''Must specify server_name or use namespaced URI format (server:uri)'')"
    if "CHR '':'' \<notin> set plain"
    using that by (simp add: read_resource_def Let_def)
  have foreign: "read_resource AnyUrl st (other @ '':'' @ rest') None =
        Inl (McpError (- 32601)
               ''Must specify server_name or use namespaced URI format (server:uri)'')"
    if "CHR '':'' \<notin> set other" "map_of (sessions st) other = None"
    using that by (simp add: read_resource_def split_colon_namespaced Let_def)
  show ?thesis
    using explicit routed unrouted foreign by blast
qed

theorem read_resource_resolution_witness:
  "read_resource example_AnyUrl example_client ''inv:inventory://overview'' (Some ''inv'') =
     Inr ''inv:inventory://overview'' \<and>
   read_resource example_AnyUrl example_client ''overview'' (Some ''zzz'') =
     Inl (McpError (- 32601) ''Unknown server: zzz'') \<and>
   (CHR '':'' \<notin> set ''inv'' \<and> map_of (sessions example_client) ''inv'' = Some inv_session) \<and>
   read_resource example_AnyUrl example_client (''inv'' @ '':'' @ ''inventory://overview'') None =
     Inr ''inventory://overview'' \<and>
   CHR '':'' \<notin> set ''overview'' \<and>
   read_resource example_AnyUrl example_client ''overview'' None =
     Inl (McpError (- 32601)
            ''Must specify server_name or use namespaced URI format (server:uri)'') \<and>
   (CHR '':'' \<notin> set ''file'' \<and> map_of (sessions example_client) ''file'' = None) \<and>
   read_resource example_AnyUrl example_client (''file'' @ '':'' @ ''///tmp/x'') None =
     Inl (McpError (- 32601)
            ''Must specify server_name or use namespaced URI format (server:uri)'')"
  using read_resource_resolution [where AnyUrl = example_AnyUrl and st = example_client
      and uri = "''inv:inventory://overview''" and server_name = "''inv''" and left = "''inv''"
      and s' = inv_session and rest = "''inventory://overview''" and plain = "''overview''"
      and other = "''file''" and rest' = "''///tmp/x''"]
    read_resource_resolution [where AnyUrl = example_AnyUrl and st = example_client
      and uri = "''overview''" and server_name = "''zzz''" and left = "''inv''"
      and s' = inv_session and rest = "''inventory://overview''" and plain = "''overview''"
      and other = "''file''" and rest' = "''///tmp/x''"]
  by (simp add: example_sessions inv_session_def example_session_def example_AnyUrl_def)

subsection \<open>C3: \<open>call_tool\<close> reports routing failures as results\<close>

text \<open>
  Claim C3. \<open>call_tool\<close> returns a result with \<open>isError\<close> set whose content is the one text
  item carrying the message, and does not raise, when no server is given and the tool name
  has no entry in \<open>tool_to_server\<close> (the message begins with \<open>Unknown tool\<close>), and when the
  server given is not in \<open>sessions\<close>, or its snapshot has no tools, or its tools do not
  contain the name. On every client that the constructor and \<open>connect_all\<close> can produce, an
  exception that leaves \<open>call_tool\<close> is one that the forwarded \<open>session.call_tool\<close> raised for
  the same call.
\<close>

theorem call_tool_routing_failures:
  "create_error_result msg = \<lparr>content = [TextContent msg], isError = True\<rparr> \<and>
   (map_of (tool_to_server st) name = None \<longrightarrow>
      call_tool st name arguments t cb None =
        Inr \<lparr>content = [TextContent (''Unknown tool: '' @ name)], isError = True\<rparr>) \<and>
   (map_of (sessions st) unknown = None \<longrightarrow>
      call_tool st name arguments t cb (Some unknown) =
        Inr \<lparr>content = [TextContent (''Unknown server: '' @ unknown)], isError = True\<rparr>) \<and>
   (map_of (sessions st) bare \<noteq> None \<and> map_of (capabilities st) bare = Some caps \<and>
    tools caps = None \<longrightarrow>
      call_tool st name arguments t cb (Some bare) =
        Inr \<lparr>content = [TextContent (''Server '' @ sq @ bare @ sq @ '' has no tools'')],
             isError = True\<rparr>) \<and>
   (map_of (sessions st) srv \<noteq> None \<and> map_of (capabilities st) srv = Some caps' \<and>
    tools caps' = Some r \<and> name \<notin> tool_name ` set (entries r) \<longrightarrow>
      call_tool st name arguments t cb (Some srv) =
        Inr \<lparr>content =
               [TextContent
                  (''Tool '' @ sq @ name @ sq @ '' not found in server '' @ sq @ srv @ sq)],
             isError = True\<rparr>) \<and>
   (reachable st \<and> call_tool st name' arguments' t' cb' server_name = Inl e \<longrightarrow>
      (\<exists>n s. map_of (sessions st) n = Some s \<and>
             session_call_tool s name' arguments' t' cb' = Inl e))"
proof -
  have "\<exists>n s. map_of (sessions st) n = Some s \<and> session_call_tool s name' arguments' t' cb' = Inl e"
    if "reachable st" "call_tool st name' arguments' t' cb' server_name = Inl e"
    using call_tool_raises [OF reachable_consistent [OF that(1)] that(2)] .
  then show ?thesis
    by (auto simp: call_tool_def create_error_result_def getitem_def Let_def)
qed

theorem call_tool_routing_failures_witness:
  "create_error_result ''Unknown tool: nope'' =
     \<lparr>content = [TextContent ''Unknown tool: nope''], isError = True\<rparr> \<and>
   map_of (tool_to_server example_client) ''nope'' = None \<and>
   call_tool example_client ''nope'' [(''q'', ''1'')] None None None =
     Inr \<lparr>content = [TextContent ''Unknown tool: nope''], isError = True\<rparr> \<and>
   map_of (sessions example_client) ''zzz'' = None \<and>
   call_tool example_client ''nope'' [(''q'', ''1'')] None None (Some ''zzz'') =
     Inr \<lparr>content = [TextContent ''Unknown server: zzz''], isError = True\<rparr> \<and>
   (map_of (sessions example_client) ''notes'' \<noteq> None \<and>
    map_of (capabilities example_client) ''notes'' = Some (snapshot ''notes'' notes_session) \<and>
    tools (snapshot ''notes'' notes_session) = None) \<and>
   call_tool example_client ''nope'' [(''q'', ''1'')] None None (Some ''notes'') =
     Inr \<lparr>content = [TextContent (''Server '' @ sq @ ''notes'' @ sq @ '' has no tools'')],
          isError = True\<rparr> \<and>
   (map_of (sessions example_client) ''inv'' \<noteq> None \<and>
    map_of (capabilities example_client) ''inv'' = Some (snapshot ''inv'' inv_session) \<and>
    ''nope'' \<notin> tool_names inv_session) \<and>
   call_tool example_client ''nope'' [(''q'', ''1'')] None None (Some ''inv'') =
     Inr \<lparr>content =
            [TextContent
               (''Tool '' @ sq @ ''nope'' @ sq @ '' not found in server '' @ sq @ ''inv'' @ sq)],
          isError = True\<rparr> \<and>
   (reachable example_client \<and>
    call_tool example_client ''get_item'' [] None None None =
      Inl (McpError (- 32602) ''Invalid params'')) \<and>
   (\<exists>n s. map_of (sessions example_client) n = Some s \<and>
          session_call_tool s ''get_item'' [] None None = Inl (McpError (- 32602) ''Invalid params''))"
proof -
  let ?r = "\<lparr>entries =
               [\<lparr>tool_name = ''get_item'', tool_body = ''{}'', tool_meta = None\<rparr>,
                \<lparr>tool_name = ''search'', tool_body = ''{}'',
                 tool_meta = Some [(''serverName'', ''upstream''), (''origin'', ''cache'')]\<rparr>],
             nextCursor = None\<rparr>"
  have t: "tools (snapshot ''inv'' inv_session) = Some ?r"
    by (simp add: example_snapshots)
  have c: "call_tool example_client ''get_item'' [] None None None =
      Inl (McpError (- 32602) ''Invalid params'')"
    by (simp add: call_tool_def example_tool_lookup example_sessions getitem_def
        inv_session_def example_session_def)
  show ?thesis
    using call_tool_routing_failures [where msg = "''Unknown tool: nope''" and st = example_client
        and name = "''nope''" and arguments = "[(''q'', ''1'')]" and t = None and cb = None
        and unknown = "''zzz''" and bare = "''notes''" and caps = "snapshot ''notes'' notes_session"
        and srv = "''inv''" and caps' = "snapshot ''inv'' inv_session" and r = ?r
        and name' = "''get_item''" and arguments' = "[]" and t' = None and cb' = None
        and server_name = None and e = "McpError (- 32602) ''Invalid params''"]
      example_reachable c t
    by (simp add: example_tool_lookup example_sessions example_capabilities example_snapshots
        example_names)
qed

subsection \<open>C4: \<open>get_prompt\<close> raises routing failures\<close>

text \<open>
  Claim C4. \<open>get_prompt\<close> raises \<open>McpError\<close> with code -32601 when no server is given
  and the prompt name has no entry in \<open>prompt_to_server\<close> (\<open>Unknown prompt\<close>), when the
  server given is not in \<open>sessions\<close> (\<open>Unknown server\<close>), when its snapshot has no prompts,
  and when its prompts do not contain the name (\<open>not found in server\<close>). When the target
  resolves, the outcome is that of the session's \<open>get_prompt\<close>, unchanged. On every client
  that the constructor and \<open>connect_all\<close> can produce, a value returned by \<open>get_prompt\<close> is
  one that a session's \<open>get_prompt\<close> returned for that call (no routing failure is ever a
  result), and an exception is either such a routing \<open>McpError\<close> or one the session raised.
\<close>

theorem get_prompt_routing_failures:
  "(map_of (prompt_to_server st) name = None \<longrightarrow>
      get_prompt st name arguments None = Inl (McpError (- 32601) (''Unknown prompt: '' @ name))) \<and>
   (map_of (sessions st) unknown = None \<longrightarrow>
      get_prompt st name arguments (Some unknown) =
        Inl (McpError (- 32601) (''Unknown server: '' @ unknown))) \<and>
   (map_of (sessions st) bare \<noteq> None \<and> map_of (capabilities st) bare = Some caps \<and>
    prompts caps = None \<longrightarrow>
      get_prompt st name arguments (Some bare) =
        Inl (McpError (- 32601) (''Server '' @ sq @ bare @ sq @ '' has no prompts''))) \<and>
   (map_of (sessions st) srv \<noteq> None \<and> map_of (capabilities st) srv = Some caps' \<and>
    prompts caps' = Some r \<and> name \<notin> prompt_name ` set (entries r) \<longrightarrow>
      get_prompt st name arguments (Some srv) =
        Inl (McpError (- 32601)
               (''Prompt '' @ sq @ name @ sq @ '' not found in server '' @ sq @ srv @ sq))) \<and>
   (map_of (prompt_to_server st) known = Some owner \<and> owner \<noteq> [] \<and>
    map_of (sessions st) owner = Some s \<longrightarrow>
      get_prompt st known arguments None =
        session_get_prompt s known (case arguments of None \<Rightarrow> [] | Some a \<Rightarrow> a)) \<and>
   (map_of (sessions st) srv' = Some s' \<and> map_of (capabilities st) srv' = Some caps'' \<and>
    prompts caps'' = Some r' \<and> known \<in> prompt_name ` set (entries r') \<longrightarrow>
      get_prompt st known arguments (Some srv') =
        session_get_prompt s' known (case arguments of None \<Rightarrow> [] | Some a \<Rightarrow> a)) \<and>
   (reachable st \<and> get_prompt st name' arguments' server_name = Inl e \<longrightarrow>
      (\<exists>n s. map_of (sessions st) n = Some s \<and>
         session_get_prompt s name' (case arguments' of None \<Rightarrow> [] | Some a \<Rightarrow> a) = Inl e) \<or>
      (\<exists>msg. e = McpError (- 32601) msg)) \<and>
   (reachable st \<and> get_prompt st name' arguments' server_name = Inr res \<longrightarrow>
      (\<exists>n s. map_of (sessions st) n = Some s \<and>
         session_get_prompt s name' (case arguments' of None \<Rightarrow> [] | Some a \<Rightarrow> a) = Inr res))"
proof -
  have raised: "(\<exists>n s. map_of (sessions st) n = Some s \<and>
         session_get_prompt s name' (case arguments' of None \<Rightarrow> [] | Some a \<Rightarrow> a) = Inl e) \<or>
      (\<exists>msg. e = McpError (- 32601) msg)"
    if "reachable st" "get_prompt st name' arguments' server_name = Inl e"
    using get_prompt_raises [OF reachable_consistent [OF that(1)] that(2)] .
  have returned: "\<exists>n s. map_of (sessions st) n = Some s \<and>
         session_get_prompt s name' (case arguments' of None \<Rightarrow> [] | Some a \<Rightarrow> a) = Inr res"
    if "reachable st" "get_prompt st name' arguments' server_name = Inr res"
    using get_prompt_returns [OF reachable_consistent [OF that(1)] that(2)] .
  have routing:
    "(map_of (prompt_to_server st) name = None \<longrightarrow>
      get_prompt st name arguments None = Inl (McpError (- 32601) (''Unknown prompt: '' @ name))) \<and>
   (map_of (sessions st) unknown = None \<longrightarrow>
      get_prompt st name arguments (Some unknown) =
        Inl (McpError (- 32601) (''Unknown server: '' @ unknown))) \<and>
   (map_of (sessions st) bare \<noteq> None \<and> map_of (capabilities st) bare = Some caps \<and>
    prompts caps = None \<longrightarrow>
      get_prompt st name arguments (Some bare) =
        Inl (McpError (- 32601) (''Server '' @ sq @ bare @ sq @ '' has no prompts''))) \<and>
   (map_of (sessions st) srv \<noteq> None \<and> map_of (capabilities st) srv = Some caps' \<and>
    prompts caps' = Some r \<and> name \<notin> prompt_name ` set (entries r) \<longrightarrow>
      get_prompt st name arguments (Some srv) =
        Inl (McpError (- 32601)
               (''Prompt '' @ sq @ name @ sq @ '' not found in server '' @ sq @ srv @ sq))) \<and>
   (map_of (prompt_to_server st) known = Some owner \<and> owner \<noteq> [] \<and>
    map_of (sessions st) owner = Some s \<longrightarrow>
      get_prompt st known arguments None =
        session_get_prompt s known (case arguments of None \<Rightarrow> [] | Some a \<Rightarrow> a)) \<and>
   (map_of (sessions st) srv' = Some s' \<and> map_of (capabilities st) srv' = Some caps'' \<and>
    prompts caps'' = Some r' \<and> known \<in> prompt_name ` set (entries r') \<longrightarrow>
      get_prompt st known arguments (Some srv') =
        session_get_prompt s' known (case arguments of None \<Rightarrow> [] | Some a \<Rightarrow> a))"
    by (intro conjI impI; clarsimp simp: get_prompt_def getitem_def Let_def)
  from raised returned have
    "(reachable st \<and> get_prompt st name' arguments' server_name = Inl e \<longrightarrow>
      (\<exists>n s. map_of (sessions st) n = Some s \<and>
         session_get_prompt s name' (case arguments' of None \<Rightarrow> [] | Some a \<Rightarrow> a) = Inl e) \<or>
      (\<exists>msg. e = McpError (- 32601) msg)) \<and>
   (reachable st \<and> get_prompt st name' arguments' server_name = Inr res \<longrightarrow>
      (\<exists>n s. map_of (sessions st) n = Some s \<and>
         session_get_prompt s name' (case arguments' of None \<Rightarrow> [] | Some a \<Rightarrow> a) = Inr res))"
    by blast
  with routing show ?thesis
    by (elim conjE, intro conjI) assumption+
qed

theorem get_prompt_routing_failures_witness:
  "map_of (prompt_to_server example_client) ''nope'' = None \<and>
   get_prompt example_client ''nope'' None None =
     Inl (McpError (- 32601) ''Unknown prompt: nope'') \<and>
   map_of (sessions example_client) ''zzz'' = None \<and>
   get_prompt example_client ''nope'' None (Some ''zzz'') =
     Inl (McpError (- 32601) ''Unknown server: zzz'') \<and>
   (map_of (sessions example_client) ''notes'' \<noteq> None \<and>
    map_of (capabilities example_client) ''notes'' = Some (snapshot ''notes'' notes_session) \<and>
    prompts (snapshot ''notes'' notes_session) = None) \<and>
   get_prompt example_client ''nope'' None (Some ''notes'') =
     Inl (McpError (- 32601) (''Server '' @ sq @ ''notes'' @ sq @ '' has no prompts'')) \<and>
   (map_of (sessions example_client) ''inv'' \<noteq> None \<and>
    map_of (capabilities example_client) ''inv'' = Some (snapshot ''inv'' inv_session) \<and>
    ''nope'' \<notin> prompt_names inv_session) \<and>
   get_prompt example_client ''nope'' None (Some ''inv'') =
     Inl (McpError (- 32601)
            (''Prompt '' @ sq @ ''nope'' @ sq @ '' not found in server '' @ sq @ ''inv'' @ sq)) \<and>
   (map_of (prompt_to_server example_client) ''report'' = Some ''inv'' \<and> ''inv'' \<noteq> [] \<and>
    map_of (sessions example_client) ''inv'' = Some inv_session) \<and>
   get_prompt example_client ''report'' None None =
     session_get_prompt inv_session ''report'' [] \<and>
   ''report'' \<in> prompt_names inv_session \<and>
   get_prompt example_client ''report'' None (Some ''inv'') =
     session_get_prompt inv_session ''report'' [] \<and>
   (reachable example_client \<and>
    get_prompt example_client ''report'' None None = Inl (McpError (- 32602) ''Invalid params'')) \<and>
   (reachable example_client \<and>
    get_prompt example_client ''report'' (Some [(''topic'', ''stock'')]) None = Inr ''report'') \<and>
   (\<exists>n s. map_of (sessions example_client) n = Some s \<and>
          session_get_prompt s ''report'' [(''topic'', ''stock'')] = Inr ''report'')"
proof -
  let ?r = "\<lparr>entries = [\<lparr>prompt_name = ''report'', prompt_body = '''', prompt_meta = None\<rparr>],
             nextCursor = None\<rparr>"
  have p: "prompts (snapshot ''inv'' inv_session) = Some ?r"
    by (simp add: example_snapshots)
  have g: "get_prompt example_client ''report'' None None = Inl (McpError (- 32602) ''Invalid params'')"
    "get_prompt example_client ''report'' (Some [(''topic'', ''stock'')]) None = Inr ''report''"
    by (simp_all add: get_prompt_def example_prompt_lookup example_sessions getitem_def
        inv_session_def example_session_def)
  have s: "session_get_prompt inv_session ''report'' [] = Inl (McpError (- 32602) ''Invalid params'')"
    by (simp add: inv_session_def example_session_def)
  have a: "get_prompt example_client ''nope'' None None =
     Inl (McpError (- 32601) ''Unknown prompt: nope'')"
    "get_prompt example_client ''nope'' None (Some ''zzz'') =
     Inl (McpError (- 32601) ''Unknown server: zzz'')"
    "get_prompt example_client ''nope'' None (Some ''notes'') =
     Inl (McpError (- 32601) (''Server '' @ sq @ ''notes'' @ sq @ '' has no prompts''))"
     "get_prompt example_client ''nope'' None (Some ''inv'') =
     Inl (McpError (- 32601)
            (''Prompt '' @ sq @ ''nope'' @ sq @ '' not found in server '' @ sq @ ''inv'' @ sq))"
     "get_prompt example_client ''report'' None (Some ''inv'') =
        session_get_prompt inv_session ''report'' []"
     "\<exists>n s. map_of (sessions example_client) n = Some s \<and>
          session_get_prompt s ''report'' [(''topic'', ''stock'')] = Inr ''report''"
    using get_prompt_routing_failures [of example_client "''nope''" None "''zzz''" "''notes''"
        "snapshot ''notes'' notes_session" "''inv''" "snapshot ''inv'' inv_session" ?r
        "''report''" "''inv''" inv_session "''inv''" inv_session "snapshot ''inv'' inv_session" ?r
        "''report''" "Some [(''topic'', ''stock'')]" None "McpError 0 []" "''report''"]
      example_reachable g(2) p
    by (simp_all add: example_prompt_lookup example_sessions example_capabilities example_snapshots)
  show ?thesis
    using a g s example_reachable
    by (simp add: example_prompt_lookup example_sessions example_capabilities example_snapshots
        example_names)
qed

subsection \<open>C5: the last provider to register a name owns it\<close>

text \<open>
  Claim C5. Let two providers \<open>A\<close> and \<open>B\<close> both connect and both advertise a tool
  \<open>x\<close>, with no other provider after the first of them advertising it. When \<open>A\<close> is
  configured before \<open>B\<close>, \<open>connect_all\<close> returns normally, binds \<open>x\<close> to \<open>B\<close> in
  \<open>tool_to_server\<close> and logs the collision warning naming \<open>A\<close> as the old and \<open>B\<close> as the new
  owner; with the two swapped in the configuration it binds \<open>x\<close> to \<open>A\<close> and the warning
  names them the other way round. The same holds for a prompt \<open>y\<close> and \<open>prompt_to_server\<close>.
  This holds from any starting client.
\<close>

theorem collision_last_write_wins:
  assumes "opened stack A ca = Some sa" and "opened stack B cb = Some sb"
  shows "(x \<in> tool_names sa \<and> x \<in> tool_names sb \<and>
          silent_on_tool stack x mid \<and> silent_on_tool stack x post \<longrightarrow>
            (\<exists>st. connect_all (Valid (pre @ (A, ca) # mid @ (B, cb) # post)) stack st0 = Inr st \<and>
                  map_of (tool_to_server st) x = Some B \<and>
                  tool_collision x A B \<in> set (logged st)) \<and>
            (\<exists>st. connect_all (Valid (pre @ (B, cb) # mid @ (A, ca) # post)) stack st0 = Inr st \<and>
                  map_of (tool_to_server st) x = Some A \<and>
                  tool_collision x B A \<in> set (logged st))) \<and>
         (y \<in> prompt_names sa \<and> y \<in> prompt_names sb \<and>
          silent_on_prompt stack y mid' \<and> silent_on_prompt stack y post' \<longrightarrow>
            (\<exists>st. connect_all (Valid (pre' @ (A, ca) # mid' @ (B, cb) # post')) stack st0 = Inr st \<and>
                  map_of (prompt_to_server st) y = Some B \<and>
                  prompt_collision y A B \<in> set (logged st)) \<and>
            (\<exists>st. connect_all (Valid (pre' @ (B, cb) # mid' @ (A, ca) # post')) stack st0 = Inr st \<and>
                  map_of (prompt_to_server st) y = Some A \<and>
                  prompt_collision y B A \<in> set (logged st)))"
proof -
  have tool: "\<exists>st. connect_all (Valid (p @ (P, cp) # m @ (Q, cq) # q)) stack st0 = Inr st \<and>
                  map_of (tool_to_server st) x = Some Q \<and>
                  tool_collision x P Q \<in> set (logged st)"
    if "opened stack P cp = Some sp" "x \<in> tool_names sp"
      "opened stack Q cq = Some sq'" "x \<in> tool_names sq'"
      "silent_on_tool stack x m" "silent_on_tool stack x q"
    for p P cp m Q cq q sp sq'
  proof -
    let ?cfg = "p @ (P, cp) # m @ (Q, cq) # q"
    obtain st where st: "connect_all (Valid ?cfg) stack st0 = Inr st"
      by (simp add: connect_all_Valid)
    from connect_loop_tool_collision [OF that, of p "begun ?cfg st0"]
    show ?thesis
      using st connect_all_fields(3) [OF st] connect_all_logged [OF st] by auto
  qed
  have prompt: "\<exists>st. connect_all (Valid (p @ (P, cp) # m @ (Q, cq) # q)) stack st0 = Inr st \<and>
                  map_of (prompt_to_server st) y = Some Q \<and>
                  prompt_collision y P Q \<in> set (logged st)"
    if "opened stack P cp = Some sp" "y \<in> prompt_names sp"
      "opened stack Q cq = Some sq'" "y \<in> prompt_names sq'"
      "silent_on_prompt stack y m" "silent_on_prompt stack y q"
    for p P cp m Q cq q sp sq'
  proof -
    let ?cfg = "p @ (P, cp) # m @ (Q, cq) # q"
    obtain st where st: "connect_all (Valid ?cfg) stack st0 = Inr st"
      by (simp add: connect_all_Valid)
    from connect_loop_prompt_collision [OF that, of p "begun ?cfg st0"]
    show ?thesis
      using st connect_all_fields(4) [OF st] connect_all_logged [OF st] by auto
  qed
  show ?thesis
    using tool [OF assms(1) _ assms(2)] tool [OF assms(2) _ assms(1)]
      prompt [OF assms(1) _ assms(2)] prompt [OF assms(2) _ assms(1)]
    by blast
qed

theorem collision_last_write_wins_witness:
  "(opened example_stack ''inv'' python = Some inv_session \<and>
    opened example_stack ''shop'' python = Some shop_session \<and>
    ''search'' \<in> tool_names inv_session \<and> ''search'' \<in> tool_names shop_session \<and>
    silent_on_tool example_stack ''search'' [(''notes'', python)] \<and>
    silent_on_tool example_stack ''search'' [(''down'', python)] \<and>
    ''report'' \<in> prompt_names inv_session \<and> ''report'' \<in> prompt_names shop_session \<and>
    silent_on_prompt example_stack ''report'' [(''notes'', python)] \<and>
    silent_on_prompt example_stack ''report'' [(''down'', python)]) \<and>
   (\<exists>st. connect_all
           (Valid [(''inv'', python), (''notes'', python), (''shop'', python), (''down'', python)])
           example_stack (init ''mcp_servers.json'' []) = Inr st \<and>
         map_of (tool_to_server st) ''search'' = Some ''shop'' \<and>
         tool_collision ''search'' ''inv'' ''shop'' \<in> set (logged st)) \<and>
   (\<exists>st. connect_all
           (Valid [(''shop'', python), (''notes'', python), (''inv'', python), (''down'', python)])
           example_stack (init ''mcp_servers.json'' []) = Inr st \<and>
         map_of (tool_to_server st) ''search'' = Some ''inv'' \<and>
         tool_collision ''search'' ''shop'' ''inv'' \<in> set (logged st)) \<and>
   (\<exists>st. connect_all
           (Valid [(''inv'', python), (''notes'', python), (''shop'', python), (''down'', python)])
           example_stack (init ''mcp_servers.json'' []) = Inr st \<and>
         map_of (prompt_to_server st) ''report'' = Some ''shop'' \<and>
         prompt_collision ''report'' ''inv'' ''shop'' \<in> set (logged st)) \<and>
   (\<exists>st. connect_all
           (Valid [(''shop'', python), (''notes'', python), (''inv'', python), (''down'', python)])
           example_stack (init ''mcp_servers.json'' []) = Inr st \<and>
         map_of (prompt_to_server st) ''report'' = Some ''inv'' \<and>
         prompt_collision ''report'' ''shop'' ''inv'' \<in> set (logged st))"
  using collision_last_write_wins [OF example_opened(1) example_opened(3),
      of "''search''" "[(''notes'', python)]" "[(''down'', python)]" "[]"
         "init ''mcp_servers.json'' []" "''report''" "[(''notes'', python)]" "[(''down'', python)]" "[]"]
    example_silent
  by (simp add: example_opened example_names)

subsection \<open>C6: the listings\<close>

text \<open>
  The claim says that the merge of \<open>serverName\<close> into an entry's meta does not destroy
  provenance the entry already carried. It does when that provenance is itself stored
  under \<open>serverName\<close>: after a first \<open>connect_all\<close> with the example providers, the tool
  \<open>search\<close>, advertised by \<open>inv\<close> with \<open>serverName\<close> mapped to \<open>upstream\<close>, is listed with
  \<open>serverName\<close> mapped to \<open>inv\<close>.
\<close>

theorem list_tools_overwrites_provenance:
  "connect_all (Valid example_config) example_stack (init ''mcp_servers.json'' []) =
     Inr example_client \<and>
   session_list_tools inv_session =
     Inr \<lparr>entries =
            [\<lparr>tool_name = ''get_item'', tool_body = ''{}'', tool_meta = None\<rparr>,
             \<lparr>tool_name = ''search'', tool_body = ''{}'',
              tool_meta = Some [(''serverName'', ''upstream''), (''origin'', ''cache'')]\<rparr>],
          nextCursor = None\<rparr> \<and>
   list_tools example_client None =
     Inr \<lparr>entries =
            [\<lparr>tool_name = ''get_item'', tool_body = ''{}'',
              tool_meta = Some [(''serverName'', ''inv'')]\<rparr>,
             \<lparr>tool_name = ''search'', tool_body = ''{}'',
              tool_meta = Some [(''serverName'', ''inv''), (''origin'', ''cache'')]\<rparr>],
          nextCursor = None\<rparr> \<and>
   map_of [(''serverName'', ''upstream''), (''origin'', ''cache'')] ''serverName'' = Some ''upstream'' \<and>
   map_of [(''serverName'', ''inv''), (''origin'', ''cache'')] ''serverName'' \<noteq> Some ''upstream''"
proof -
  have "session_list_tools inv_session =
     Inr \<lparr>entries =
            [\<lparr>tool_name = ''get_item'', tool_body = ''{}'', tool_meta = None\<rparr>,
             \<lparr>tool_name = ''search'', tool_body = ''{}'',
              tool_meta = Some [(''serverName'', ''upstream''), (''origin'', ''cache'')]\<rparr>],
          nextCursor = None\<rparr>"
    by (simp add: inv_session_def example_session_def)
  then show ?thesis
    by (simp add: example_connect_all list_tools_eq example_capabilities example_snapshots
        aggregate_def with_server_name_def)
qed

text \<open>
  Claim C6, amended. With no cursor, each listing returns the concatenation, in the order
  of the \<open>capabilities\<close> dictionary and then of each snapshot, of the entries of its kind of
  every server that has a snapshot of that kind, with \<open>nextCursor\<close> absent; it is a function
  of the client alone. The meta of each listed entry is the entry's own meta (empty when it
  had none) with \<open>serverName\<close> set to the owning server: every other key keeps its value,
  and a value already stored under \<open>serverName\<close> is replaced. \<open>list_resources\<close> and
  \<open>list_resource_templates\<close> put the server name and a colon in front of the URI or URI
  template when \<open>use_namespace\<close> holds and leave it as it is otherwise; \<open>list_tools\<close> and
  \<open>list_prompts\<close> change no name.
\<close>

theorem listings_aggregate:
  "list_tools st None =
     Inr \<lparr>entries = aggregate (\<lambda>n t. t\<lparr>tool_meta := Some (with_server_name (tool_meta t) n)\<rparr>)
                       tools (capabilities st),
          nextCursor = None\<rparr> \<and>
   list_prompts st None =
     Inr \<lparr>entries = aggregate (\<lambda>n p. p\<lparr>prompt_meta := Some (with_server_name (prompt_meta p) n)\<rparr>)
                       prompts (capabilities st),
          nextCursor = None\<rparr> \<and>
   list_resources st None use_namespace =
     Inr \<lparr>entries =
            aggregate (\<lambda>n r. r\<lparr>resource_uri :=
                                  (if use_namespace then n @ '':'' @ resource_uri r else resource_uri r),
                                resource_meta := Some (with_server_name (resource_meta r) n)\<rparr>)
              resources (capabilities st),
          nextCursor = None\<rparr> \<and>
   list_resource_templates st None use_namespace =
     Inr \<lparr>entries =
            aggregate (\<lambda>n r. r\<lparr>template_uriTemplate :=
                                  (if use_namespace then n @ '':'' @ template_uriTemplate r
                                   else template_uriTemplate r),
                                template_meta := Some (with_server_name (template_meta r) n)\<rparr>)
              resource_templates (capabilities st),
          nextCursor = None\<rparr> \<and>
   (\<exists>res. list_tools st None = Inr res \<and>
      map tool_name (entries res) = aggregate (\<lambda>n t. tool_name t) tools (capabilities st)) \<and>
   (\<exists>res. list_prompts st None = Inr res \<and>
      map prompt_name (entries res) = aggregate (\<lambda>n p. prompt_name p) prompts (capabilities st)) \<and>
   map_of (with_server_name m n) ''serverName'' = Some n \<and>
   (k \<noteq> ''serverName'' \<longrightarrow>
      map_of (with_server_name m n) k =
        map_of (case m of None \<Rightarrow> [] | Some existing_meta \<Rightarrow> existing_meta) k)"
  by (simp add: list_tools_eq list_prompts_eq list_resources_eq list_resource_templates_eq
      with_server_name_lookup map_aggregate)

theorem listings_aggregate_witness:
  "list_tools example_client None =
     Inr \<lparr>entries =
            [\<lparr>tool_name = ''get_item'', tool_body = ''{}'',
              tool_meta = Some [(''serverName'', ''inv'')]\<rparr>,
             \<lparr>tool_name = ''search'', tool_body = ''{}'',
              tool_meta = Some [(''serverName'', ''inv''), (''origin'', ''cache'')]\<rparr>],
          nextCursor = None\<rparr> \<and>
   list_resources example_client None False =
     Inr \<lparr>entries =
            [\<lparr>resource_uri = ''inventory://overview'', resource_name = ''Inventory Overview'',
              resource_body = '''', resource_meta = Some [(''serverName'', ''inv'')]\<rparr>],
          nextCursor = None\<rparr> \<and>
   list_resource_templates example_client None True =
     Inr \<lparr>entries =
            [\<lparr>template_uriTemplate = ''inv:inventory://item/{id}'', template_name = ''Item'',
              template_body = '''', template_meta = Some [(''serverName'', ''inv'')]\<rparr>],
          nextCursor = None\<rparr> \<and>
   (\<exists>res. list_tools example_client None = Inr res \<and>
      map tool_name (entries res) = [''get_item'', ''search'']) \<and>
   (\<exists>res. list_prompts example_client None = Inr res \<and>
      map prompt_name (entries res) = [''report'']) \<and>
   ''origin'' \<noteq> ''serverName'' \<and>
   map_of (with_server_name (Some [(''serverName'', ''upstream''), (''origin'', ''cache'')]) ''inv'')
     ''origin'' = Some ''cache''"
  using listings_aggregate [of example_client False
      "Some [(''serverName'', ''upstream''), (''origin'', ''cache'')]" "''inv''" "''origin''"]
    listings_aggregate [of example_client True None "''inv''" "''origin''"]
  by (simp add: example_capabilities example_snapshots aggregate_def with_server_name_def)

subsection \<open>C7: running \<open>connect_all\<close> again\<close>

text \<open>
  The claim says that after a second \<open>connect_all\<close> only the providers that connected
  during that run have entries. In the example \<open>inv\<close> connects in the first run and fails
  in the second, and its session, its snapshot and its binding of \<open>get_item\<close> are all still
  there afterwards.
\<close>

theorem connect_all_rerun_keeps_stale_entries:
  "connect_all (Valid example_config) example_stack (init ''mcp_servers.json'' []) =
     Inr example_client \<and>
   connect_all (Valid example_config) second_stack example_client = Inr rerun_client \<and>
   opened second_stack ''inv'' python = None \<and>
   map_of (sessions rerun_client) ''inv'' = Some inv_session \<and>
   map_of (capabilities rerun_client) ''inv'' = Some (snapshot ''inv'' inv_session) \<and>
   map_of (tool_to_server rerun_client) ''get_item'' = Some ''inv'' \<and>
   dict_keys (sessions rerun_client) = {''inv'', ''notes''} \<and>
   connected second_stack example_config = {''notes''}"
proof -
  have "connected second_stack example_config = {''notes''}"
    by (auto simp: connected_def example_config_def example_opened)
  then show ?thesis
    by (simp add: example_connect_all rerun_connect_all example_opened rerun_sessions
        rerun_capabilities rerun_tool_lookup dict_keys_def insert_commute)
qed

text \<open>
  Claim C7, amended. \<open>connect_all\<close> on a client that has been connected before runs the
  whole discovery again and lays its results over the earlier state; it removes nothing.
  Afterwards the keys of \<open>sessions\<close> and of \<open>capabilities\<close> are the earlier keys together with
  the providers that connected in this run. A provider that did not connect in this run
  keeps the session and the snapshot it had; one that did has the session and the snapshot
  of this run. A tool or prompt name that no provider connecting in this run advertises
  keeps its earlier binding; any other is bound to a provider that connected in this run
  and advertises it.
\<close>

theorem connect_all_rerun_overlays:
  assumes "distinct (map fst cfg)"
    and "connect_all (Valid cfg) stack st = Inr st'"
  shows "dict_keys (sessions st') = dict_keys (sessions st) \<union> connected stack cfg \<and>
    dict_keys (capabilities st') = dict_keys (capabilities st) \<union> connected stack cfg \<and>
    (\<forall>n. n \<notin> connected stack cfg \<longrightarrow>
       map_of (sessions st') n = map_of (sessions st) n \<and>
       map_of (capabilities st') n = map_of (capabilities st) n) \<and>
    (\<forall>(n, c) \<in> set cfg. \<forall>s. opened stack n c = Some s \<longrightarrow>
       map_of (sessions st') n = Some s \<and> map_of (capabilities st') n = Some (snapshot n s)) \<and>
    (\<forall>x. silent_on_tool stack x cfg \<longrightarrow>
       map_of (tool_to_server st') x = map_of (tool_to_server st) x) \<and>
    (\<forall>x. silent_on_prompt stack x cfg \<longrightarrow>
       map_of (prompt_to_server st') x = map_of (prompt_to_server st) x) \<and>
    (\<forall>x. \<not> silent_on_tool stack x cfg \<longrightarrow>
       (\<exists>n c s. map_of (tool_to_server st') x = Some n \<and> (n, c) \<in> set cfg \<and>
                 opened stack n c = Some s \<and> x \<in> tool_names s)) \<and>
    (\<forall>x. \<not> silent_on_prompt stack x cfg \<longrightarrow>
       (\<exists>n c s. map_of (prompt_to_server st') x = Some n \<and> (n, c) \<in> set cfg \<and>
                 opened stack n c = Some s \<and> x \<in> prompt_names s))"
proof -
  note f = connect_all_fields [OF assms(2)]
  have ks: "dict_keys (sessions st') = dict_keys (sessions st) \<union> connected stack cfg"
    unfolding f connect_loop_session_keys connected_def by simp
  have kc: "dict_keys (capabilities st') = dict_keys (capabilities st) \<union> connected stack cfg"
    unfolding f connect_loop_capability_keys connected_def by simp
  have old: "map_of (sessions st') n = map_of (sessions st) n \<and>
       map_of (capabilities st') n = map_of (capabilities st) n"
    if "n \<notin> connected stack cfg" for n
  proof (cases "map_of cfg n")
    case None
    then show ?thesis
      by (simp add: f connect_loop_session_lookup [OF assms(1)]
          connect_loop_capability_lookup [OF assms(1)])
  next
    case (Some c)
    then have "(n, c) \<in> set cfg" by (rule map_of_SomeD)
    with that have "opened stack n c = None"
      by (auto simp: connected_def)
    with Some show ?thesis
      by (simp add: f connect_loop_session_lookup [OF assms(1)]
          connect_loop_capability_lookup [OF assms(1)])
  qed
  have new: "map_of (sessions st') n = Some s \<and> map_of (capabilities st') n = Some (snapshot n s)"
    if "(n, c) \<in> set cfg" "opened stack n c = Some s" for n c s
    using that(2) distinct_config_lookup [OF assms(1) that(1)]
    by (simp add: f connect_loop_session_lookup [OF assms(1)]
        connect_loop_capability_lookup [OF assms(1)])
  have t_old: "map_of (tool_to_server st') x = map_of (tool_to_server st) x"
    if "silent_on_tool stack x cfg" for x
    using connect_loop_tool_unchanged [of cfg stack x "begun cfg st"] silent_on_toolD [OF that]
    by (simp add: f)
  have p_old: "map_of (prompt_to_server st') x = map_of (prompt_to_server st) x"
    if "silent_on_prompt stack x cfg" for x
    using connect_loop_prompt_unchanged [of cfg stack x "begun cfg st"] silent_on_promptD [OF that]
    by (simp add: f)
  have t_new: "\<exists>n c s. map_of (tool_to_server st') x = Some n \<and> (n, c) \<in> set cfg \<and>
                 opened stack n c = Some s \<and> x \<in> tool_names s"
    if "\<not> silent_on_tool stack x cfg" for x
  proof -
    from that obtain n c s where "(n, c) \<in> set cfg" "opened stack n c = Some s" "x \<in> tool_names s"
      by (auto simp: silent_on_tool_def split: option.splits)
    from connect_loop_tool_bound [OF this, of "begun cfg st"] show ?thesis
      by (simp add: f)
  qed
  have p_new: "\<exists>n c s. map_of (prompt_to_server st') x = Some n \<and> (n, c) \<in> set cfg \<and>
                 opened stack n c = Some s \<and> x \<in> prompt_names s"
    if "\<not> silent_on_prompt stack x cfg" for x
  proof -
    from that obtain n c s where "(n, c) \<in> set cfg" "opened stack n c = Some s" "x \<in> prompt_names s"
      by (auto simp: silent_on_prompt_def split: option.splits)
    from connect_loop_prompt_bound [OF this, of "begun cfg st"] show ?thesis
      by (simp add: f)
  qed
  show ?thesis
    using ks kc old new t_old p_old t_new p_new by blast
qed

theorem connect_all_rerun_overlays_witness:
  "distinct (map fst example_config) \<and>
   connect_all (Valid example_config) second_stack example_client = Inr rerun_client \<and>
   dict_keys (sessions rerun_client) =
     dict_keys (sessions example_client) \<union> connected second_stack example_config \<and>
   ''inv'' \<notin> connected second_stack example_config \<and>
   map_of (sessions rerun_client) ''inv'' = map_of (sessions example_client) ''inv'' \<and>
   map_of (capabilities rerun_client) ''inv'' = map_of (capabilities example_client) ''inv'' \<and>
   ((''notes'', python) \<in> set example_config \<and>
    opened second_stack ''notes'' python = Some shop_session) \<and>
   map_of (sessions rerun_client) ''notes'' = Some shop_session \<and>
   map_of (capabilities rerun_client) ''notes'' = Some (snapshot ''notes'' shop_session) \<and>
   silent_on_tool second_stack ''get_item'' example_config \<and>
   map_of (tool_to_server rerun_client) ''get_item'' =
     map_of (tool_to_server example_client) ''get_item'' \<and>
   \<not> silent_on_tool second_stack ''search'' example_config \<and>
   map_of (tool_to_server rerun_client) ''search'' = Some ''notes'' \<and>
   \<not> silent_on_prompt second_stack ''report'' example_config \<and>
   map_of (prompt_to_server rerun_client) ''report'' = Some ''notes'' \<and>
   silent_on_prompt second_stack ''summary'' example_config \<and>
   map_of (prompt_to_server rerun_client) ''summary'' =
     map_of (prompt_to_server example_client) ''summary''"
proof -
  note o = connect_all_rerun_overlays [OF example_distinct rerun_connect_all]
  have c: "connected second_stack example_config = {''notes''}"
    by (auto simp: connected_def example_config_def example_opened)
  have s: "silent_on_tool second_stack ''get_item'' example_config"
    "\<not> silent_on_tool second_stack ''search'' example_config"
    "\<not> silent_on_prompt second_stack ''report'' example_config"
    "silent_on_prompt second_stack ''summary'' example_config"
    by (simp_all add: silent_on_tool_def silent_on_prompt_def example_config_def example_opened
        example_names)
  have n: "(''notes'', python) \<in> set example_config"
    "opened second_stack ''notes'' python = Some shop_session"
    by (simp_all add: example_config_def example_opened)
  have 1: "dict_keys (sessions rerun_client) =
     dict_keys (sessions example_client) \<union> connected second_stack example_config"
    using o by blast
  have 2: "map_of (sessions rerun_client) ''inv'' = map_of (sessions example_client) ''inv'' \<and>
   map_of (capabilities rerun_client) ''inv'' = map_of (capabilities example_client) ''inv''"
    using o c by auto
  have 3: "map_of (sessions rerun_client) ''notes'' = Some shop_session \<and>
   map_of (capabilities rerun_client) ''notes'' = Some (snapshot ''notes'' shop_session)"
    using o n by auto
  have 4: "map_of (tool_to_server rerun_client) ''get_item'' =
     map_of (tool_to_server example_client) ''get_item''"
    "map_of (prompt_to_server rerun_client) ''summary'' =
     map_of (prompt_to_server example_client) ''summary''"
    using o s by auto
  show ?thesis
    using 1 2 3 4 s n c example_distinct rerun_connect_all
    by (simp add: rerun_tool_lookup rerun_prompt_lookup)
qed

subsection \<open>C8: namespacing round trip\<close>

text \<open>
  Claim C8. Let \<open>p\<close> be a connected server whose name contains no colon, and \<open>r\<close> a
  resource of its snapshot with URI \<open>u\<close>. Then \<open>list_resources\<close> with namespacing lists \<open>r\<close>
  with the URI \<open>p:u\<close> (and \<open>serverName\<close> in its meta), splitting \<open>p:u\<close> at its first colon
  gives back \<open>(p, u)\<close>, and \<open>read_resource\<close> of \<open>p:u\<close> without a server name resolves to the
  session of \<open>p\<close> and hands exactly \<open>u\<close> to \<open>AnyUrl(...)\<close>. The URI of a snapshot entry is the
  text of a URL object, which \<open>AnyUrl\<close> takes as it is: then the read is the read of exactly
  \<open>u\<close> on the session of \<open>p\<close>.
\<close>

theorem namespacing_round_trip:
  assumes "CHR '':'' \<notin> set p"
    and "map_of (sessions st) p = Some s"
    and "(p, caps) \<in> set (capabilities st)"
    and "resources caps = Some rs"
    and "r \<in> set (entries rs)"
  shows "\<exists>res. list_resources st None True = Inr res \<and>
           r\<lparr>resource_uri := p @ '':'' @ resource_uri r,
             resource_meta := Some (with_server_name (resource_meta r) p)\<rparr> \<in> set (entries res) \<and>
           split_colon (p @ '':'' @ resource_uri r) = (p, resource_uri r) \<and>
           read_resource AnyUrl st (p @ '':'' @ resource_uri r) None =
             (case AnyUrl (resource_uri r) of
                Inl e \<Rightarrow> Inl e
              | Inr url \<Rightarrow> session_read_resource s url) \<and>
           (AnyUrl (resource_uri r) = Inr (Url (resource_uri r)) \<longrightarrow>
              read_resource AnyUrl st (p @ '':'' @ resource_uri r) None =
                session_read_resource s (Url (resource_uri r)))"
proof -
  let ?f = "\<lambda>n r. r\<lparr>resource_uri := (if True then n @ '':'' @ resource_uri r else resource_uri r),
                       resource_meta := Some (with_server_name (resource_meta r) n)\<rparr>"
  have "?f p r \<in> set (aggregate ?f resources (capabilities st))"
    using assms(3-5) by (rule aggregate_member)
  moreover have "read_resource AnyUrl st (p @ '':'' @ resource_uri r) None =
             (case AnyUrl (resource_uri r) of
                Inl e \<Rightarrow> Inl e
              | Inr url \<Rightarrow> session_read_resource s url)"
    using assms(1,2) by (simp add: read_resource_def split_colon_namespaced Let_def)
  ultimately show ?thesis
    using assms(1) by (simp add: list_resources_eq split_colon_namespaced)
qed

theorem namespacing_round_trip_witness:
  "CHR '':'' \<notin> set ''inv'' \<and>
   map_of (sessions example_client) ''inv'' = Some inv_session \<and>
   (''inv'', snapshot ''inv'' inv_session) \<in> set (capabilities example_client) \<and>
   (\<exists>res. list_resources example_client None True = Inr res \<and>
      \<lparr>resource_uri = ''inv:inventory://overview'', resource_name = ''Inventory Overview'',
       resource_body = '''', resource_meta = Some [(''serverName'', ''inv'')]\<rparr> \<in> set (entries res)) \<and>
   split_colon ''inv:inventory://overview'' = (''inv'', ''inventory://overview'') \<and>
   example_AnyUrl ''inventory://overview'' = Inr (Url ''inventory://overview'') \<and>
   read_resource example_AnyUrl example_client ''inv:inventory://overview'' None =
     session_read_resource inv_session (Url ''inventory://overview'') \<and>
   session_read_resource inv_session (Url ''inventory://overview'') = Inr ''inventory://overview''"
proof -
  let ?r = "\<lparr>resource_uri = ''inventory://overview'', resource_name = ''Inventory Overview'',
             resource_body = '''', resource_meta = None\<rparr>"
  have 1: "CHR '':'' \<notin> set ''inv''" by simp
  have 2: "map_of (sessions example_client) ''inv'' = Some inv_session"
    by (simp add: example_sessions)
  have 3: "(''inv'', snapshot ''inv'' inv_session) \<in> set (capabilities example_client)"
    by (simp add: example_capabilities)
  have 4: "resources (snapshot ''inv'' inv_session) = Some \<lparr>entries = [?r], nextCursor = None\<rparr>"
    by (simp add: example_snapshots)
  have 5: "?r \<in> set (entries \<lparr>entries = [?r], nextCursor = None\<rparr>)" by simp
  have 6: "session_read_resource inv_session (Url ''inventory://overview'') =
           Inr ''inventory://overview''"
    by (simp add: inv_session_def example_session_def)
  have 7: "example_AnyUrl ''inventory://overview'' = Inr (Url ''inventory://overview'')"
    by (simp add: example_AnyUrl_def)
  show ?thesis
    using namespacing_round_trip [OF 1 2 3 4 5, of example_AnyUrl] 1 2 3 6 7
    by (auto simp: with_server_name_def)
qed

subsection \<open>C9: cursors are rejected\<close>

text \<open>
  Claim C9. Each of \<open>list_tools\<close>, \<open>list_prompts\<close>, \<open>list_resources\<close> and
  \<open>list_resource_templates\<close> raises \<open>ValueError\<close> for every cursor that is not \<open>None\<close>, the
  empty string included, and returns a result for \<open>None\<close>. A listing takes the client and
  returns no client: it changes nothing, whether it raises or not.
\<close>

theorem cursor_rejected:
  "list_tools st (Some c) =
     Inl (ValueError ''Pagination not supported for multi-server aggregation'') \<and>
   list_prompts st (Some c) =
     Inl (ValueError ''Pagination not supported for multi-server aggregation'') \<and>
   list_resources st (Some c) use_namespace =
     Inl (ValueError ''Pagination not supported for multi-server aggregation'') \<and>
   list_resource_templates st (Some c) use_namespace =
     Inl (ValueError ''Pagination not supported for multi-server aggregation'') \<and>
   (\<exists>r. list_tools st None = Inr r) \<and>
   (\<exists>r. list_prompts st None = Inr r) \<and>
   (\<exists>r. list_resources st None use_namespace = Inr r) \<and>
   (\<exists>r. list_resource_templates st None use_namespace = Inr r)"
  by (simp add: list_tools_def list_prompts_def list_resources_def list_resource_templates_def)

subsection \<open>C10: the invariant behind the subscripts\<close>

text \<open>
  Claim C10. After \<open>connect_all\<close> has returned on a freshly constructed client (for a
  configuration with distinct names), \<open>sessions\<close> and \<open>capabilities\<close> have the same keys, and
  every server that \<open>tool_to_server\<close> (respectively \<open>prompt_to_server\<close>) maps a name to is a key
  of \<open>sessions\<close> whose snapshot has tools (prompts) containing that name. So the subscripts
  \<open>self.sessions[server_name]\<close> and \<open>self.capabilities[server_name]\<close> that \<open>call_tool\<close> and
  \<open>get_prompt\<close> evaluate after their checks always find their key, and any exception out
  of \<open>call_tool\<close> is one the session raised for that call.
\<close>

theorem registry_invariant:
  assumes "distinct (map fst cfg)"
    and "connect_all (Valid cfg) stack (init path lg) = Inr st"
  shows "dict_keys (sessions st) = dict_keys (capabilities st) \<and>
    (\<forall>x n. map_of (tool_to_server st) x = Some n \<longrightarrow>
       n \<in> dict_keys (sessions st) \<and>
       (\<exists>caps r. map_of (capabilities st) n = Some caps \<and> tools caps = Some r \<and>
                  x \<in> tool_name ` set (entries r))) \<and>
    (\<forall>x n. map_of (prompt_to_server st) x = Some n \<longrightarrow>
       n \<in> dict_keys (sessions st) \<and>
       (\<exists>caps r. map_of (capabilities st) n = Some caps \<and> prompts caps = Some r \<and>
                  x \<in> prompt_name ` set (entries r))) \<and>
    (\<forall>x n. map_of (tool_to_server st) x = Some n \<longrightarrow> (\<exists>s. getitem (sessions st) n = Inr s)) \<and>
    (\<forall>x n. map_of (prompt_to_server st) x = Some n \<longrightarrow> (\<exists>s. getitem (sessions st) n = Inr s)) \<and>
    (\<forall>n. map_of (sessions st) n \<noteq> None \<longrightarrow>
       (\<exists>c. getitem (capabilities st) n = Inr c) \<and> (\<exists>s. getitem (sessions st) n = Inr s)) \<and>
    (\<forall>name arguments t cb server_name e.
       call_tool st name arguments t cb server_name = Inl e \<longrightarrow>
       (\<exists>n s. map_of (sessions st) n = Some s \<and>
              session_call_tool s name arguments t cb = Inl e))"
proof -
  note f = connect_all_fields [OF assms(2)]
  have r: "reachable st"
    using reachable.fresh [of path lg] assms(2) by (rule reachable.rerun)
  then have c: "consistent st"
    by (rule reachable_consistent)
  have keys: "dict_keys (sessions st) = dict_keys (capabilities st)"
    using c by (simp add: consistent_def)
  have tools_ok: "n \<in> dict_keys (sessions st) \<and>
       (\<exists>caps r. map_of (capabilities st) n = Some caps \<and> tools caps = Some r \<and>
                  x \<in> tool_name ` set (entries r))"
    if "map_of (tool_to_server st) x = Some n" for x n
  proof -
    from that connect_loop_tool_owner [of stack cfg "begun cfg (init path lg)" x n]
    obtain c s where cs: "(n, c) \<in> set cfg" "opened stack n c = Some s" "x \<in> tool_names s"
      by (auto simp: f)
    have "map_of (capabilities st) n = Some (snapshot n s)"
      using cs(2) distinct_config_lookup [OF assms(1) cs(1)]
      by (simp add: f connect_loop_capability_lookup [OF assms(1)])
    moreover have "n \<in> dict_keys (sessions st)"
      using that c by (auto simp: consistent_def)
    ultimately show ?thesis
      using tool_names_recorded [OF cs(3), of n] by auto
  qed
  have prompts_ok: "n \<in> dict_keys (sessions st) \<and>
       (\<exists>caps r. map_of (capabilities st) n = Some caps \<and> prompts caps = Some r \<and>
                  x \<in> prompt_name ` set (entries r))"
    if "map_of (prompt_to_server st) x = Some n" for x n
  proof -
    from that connect_loop_prompt_owner [of stack cfg "begun cfg (init path lg)" x n]
    obtain c s where cs: "(n, c) \<in> set cfg" "opened stack n c = Some s" "x \<in> prompt_names s"
      by (auto simp: f)
    have "map_of (capabilities st) n = Some (snapshot n s)"
      using cs(2) distinct_config_lookup [OF assms(1) cs(1)]
      by (simp add: f connect_loop_capability_lookup [OF assms(1)])
    moreover have "n \<in> dict_keys (sessions st)"
      using that c by (auto simp: consistent_def)
    ultimately show ?thesis
      using prompt_names_recorded [OF cs(3), of n] by auto
  qed
  have look: "(\<exists>c. getitem (capabilities st) n = Inr c) \<and> (\<exists>s. getitem (sessions st) n = Inr s)"
    if "map_of (sessions st) n \<noteq> None" for n
    using that consistent_getitem(3,4) [OF c, of n] by auto
  show ?thesis
    using keys tools_ok prompts_ok look consistent_getitem(1,2) [OF c] call_tool_raises [OF c]
    by blast
qed

theorem registry_invariant_witness:
  "distinct (map fst example_config) \<and>
   connect_all (Valid example_config) example_stack (init ''mcp_servers.json'' []) =
     Inr example_client \<and>
   dict_keys (sessions example_client) = dict_keys (capabilities example_client) \<and>
   map_of (tool_to_server example_client) ''search'' = Some ''inv'' \<and>
   ''inv'' \<in> dict_keys (sessions example_client) \<and>
   (\<exists>caps r. map_of (capabilities example_client) ''inv'' = Some caps \<and> tools caps = Some r \<and>
              ''search'' \<in> tool_name ` set (entries r)) \<and>
   map_of (prompt_to_server example_client) ''report'' = Some ''inv'' \<and>
   (\<exists>caps r. map_of (capabilities example_client) ''inv'' = Some caps \<and> prompts caps = Some r \<and>
              ''report'' \<in> prompt_name ` set (entries r)) \<and>
   (\<exists>s. getitem (sessions example_client) ''inv'' = Inr s) \<and>
   map_of (sessions example_client) ''notes'' \<noteq> None \<and>
   (\<exists>c. getitem (capabilities example_client) ''notes'' = Inr c) \<and>
   (\<exists>s. getitem (sessions example_client) ''notes'' = Inr s) \<and>
   call_tool example_client ''get_item'' [] None None None =
     Inl (McpError (- 32602) ''Invalid params'') \<and>
   (\<exists>n s. map_of (sessions example_client) n = Some s \<and>
      session_call_tool s ''get_item'' [] None None = Inl (McpError (- 32602) ''Invalid params''))"
proof -
  note inv = registry_invariant [OF example_distinct example_connect_all]
  have t: "map_of (tool_to_server example_client) ''search'' = Some ''inv''"
    and p: "map_of (prompt_to_server example_client) ''report'' = Some ''inv''"
    and n: "map_of (sessions example_client) ''notes'' \<noteq> None"
    by (simp_all add: example_tool_lookup example_prompt_lookup example_sessions)
  have c: "call_tool example_client ''get_item'' [] None None None =
      Inl (McpError (- 32602) ''Invalid params'')"
    by (simp add: call_tool_def example_tool_lookup example_sessions getitem_def
        inv_session_def example_session_def)
  show ?thesis
    using inv t p n c example_distinct example_connect_all by blast
qed

end
